(* ===== verification/Prelude.thy ===== *)
theory Prelude
  imports Main
begin

text \<open>
  Shared vocabulary of the development: the Python exceptions the game loop of
  \<^verbatim>\<open>src/game.py\<close> can raise, the error-propagating composition of
  statements (an uncaught exception ends the program, so the rest of a block is
  skipped), Python's \<^verbatim>\<open>list.remove\<close>, and the list lemmas the component
  theories share.
\<close>

section \<open>Python exceptions and sequencing\<close>

text \<open>
  \<open>ValueError\<close> is raised by \<^verbatim>\<open>list.remove(x)\<close> when no element equals
  \<open>x\<close>; \<open>NameError n\<close> by reading a module global \<open>n\<close> that was never bound;
  \<open>TypeError\<close> by pygame when a rectangle coordinate does not fit its C \<open>int\<close>.
\<close>

datatype py_error = ValueError | NameError string | TypeError

type_synonym 'a py_result = "py_error + 'a"

named_theorems py_simps \<open>simplification rules for the Python layer\<close>

definition bindE :: "'a py_result \<Rightarrow> ('a \<Rightarrow> 'b py_result) \<Rightarrow> 'b py_result" where
  "bindE m f = (case m of Inl e \<Rightarrow> Inl e | Inr a \<Rightarrow> f a)"

lemma bindE_Inl [simp, py_simps]: "bindE (Inl e) f = Inl e"
  by (simp add: bindE_def)

lemma bindE_Inr [simp, py_simps]: "bindE (Inr a) f = f a"
  by (simp add: bindE_def)

lemma bindE_eq_Inr [py_simps]:
  "bindE m f = Inr b \<longleftrightarrow> (\<exists>a. m = Inr a \<and> f a = Inr b)"
  by (cases m) simp_all

lemma bindE_eq_Inl:
  "bindE m f = Inl e \<longleftrightarrow> m = Inl e \<or> (\<exists>a. m = Inr a \<and> f a = Inl e)"
  by (cases m) simp_all

section \<open>\<^verbatim>\<open>list.remove\<close>\<close>

text \<open>
  \<^verbatim>\<open>xs.remove(v)\<close> deletes the first element equal to \<open>v\<close> and raises
  \<open>ValueError\<close> when there is none. Python compares by value (\<^verbatim>\<open>==\<close>),
  so on a list of values it is \<open>remove1\<close>.
\<close>

definition py_remove :: "'a \<Rightarrow> 'a list \<Rightarrow> 'a list py_result" where
  "py_remove v xs = (if v \<in> set xs then Inr (remove1 v xs) else Inl ValueError)"

lemma py_remove_mem [simp, py_simps]: "v \<in> set xs \<Longrightarrow> py_remove v xs = Inr (remove1 v xs)"
  by (simp add: py_remove_def)

lemma py_remove_not_mem [simp, py_simps]: "v \<notin> set xs \<Longrightarrow> py_remove v xs = Inl ValueError"
  by (simp add: py_remove_def)

lemma py_remove_Inr: "py_remove v xs = Inr ys \<longleftrightarrow> v \<in> set xs \<and> ys = remove1 v xs"
  by (auto simp add: py_remove_def)

lemma length_remove1_mem: "v \<in> set xs \<Longrightarrow> length (remove1 v xs) = length xs - 1"
  by (simp add: length_remove1)

lemma length_remove1_less: "v \<in> set xs \<Longrightarrow> length (remove1 v xs) < length xs"
  by (induction xs) auto

lemma filter_nonempty_ex: "0 < length (filter P xs) \<Longrightarrow> \<exists>x\<in>set xs. P x"
  by (induction xs) (auto split: if_splits)

section \<open>Lists indexed by position\<close>

text \<open>
  The motion loops of the game mutate objects through references. The
  development names an object by its position in the list the loop started
  from; these lemmas relate index lists over \<open>[0..<n]\<close> to the values.
\<close>

lemma map_nth_filter_upt:
  "map ((!) ys) (filter (\<lambda>r. P (ys ! r)) [0..<length ys]) = filter P ys"
proof -
  have "map ((!) ys) (filter (\<lambda>r. P (ys ! r)) [0..<length ys])
        = filter P (map ((!) ys) [0..<length ys])"
    by (simp add: filter_map comp_def)
  then show ?thesis by (simp add: map_nth)
qed

lemma filter_upt_Suc_split:
  "filter P [0..<Suc k] = filter P [0..<k] @ (if P k then [k] else [])"
  by simp

end
