(* ===== verification/Rect.thy ===== *)
theory Rect
  imports Prelude
begin

text \<open>
  Geometry of \<^verbatim>\<open>src/game.py\<close>: the constants of lines 10--15 and
  \<^verbatim>\<open>pygame.Rect\<close>, the axis-aligned integer rectangle every entity of the game
  is drawn and collided as. The intersection test is pygame's
  \<^verbatim>\<open>Rect.colliderect\<close>, a library routine the game only calls; it is
  modelled from its documented contract. A \<^verbatim>\<open>Rect\<close> keeps its coordinates
  as C \<open>int\<close>s: building one, or assigning to one of its attributes, raises
  \<open>TypeError\<close> for a value outside the 32-bit range.
\<close>

section \<open>Constants\<close>

definition WIDTH :: int where "WIDTH = 1366"
definition HEIGHT :: int where "HEIGHT = 768"
definition PLAYER_SIZE :: int where "PLAYER_SIZE = 50"
definition ENEMY_SIZE :: int where "ENEMY_SIZE = 30"
definition BULLET_SIZE :: int where "BULLET_SIZE = 5"
definition BOSS_SIZE :: int where "BOSS_SIZE = 100"

lemmas game_constants = WIDTH_def HEIGHT_def PLAYER_SIZE_def ENEMY_SIZE_def
  BULLET_SIZE_def BOSS_SIZE_def

section \<open>Rectangles\<close>

text \<open>
  \<^verbatim>\<open>pygame.Rect(x, y, width, height)\<close>: four integers. The fields are named
  \<open>rx\<close>, \<open>ry\<close>, \<open>rw\<close>, \<open>rh\<close> for pygame's \<^verbatim>\<open>x\<close>, \<^verbatim>\<open>y\<close>,
  \<^verbatim>\<open>width\<close>, \<^verbatim>\<open>height\<close>; \<open>y\<close> grows downwards, as on the screen.
\<close>

record rect =
  rx :: int
  ry :: int
  rw :: int
  rh :: int

definition Rect :: "int \<Rightarrow> int \<Rightarrow> int \<Rightarrow> int \<Rightarrow> rect" where
  "Rect x y w h = \<lparr>rx = x, ry = y, rw = w, rh = h\<rparr>"

lemma Rect_sel [simp]:
  "rx (Rect x y w h) = x" "ry (Rect x y w h) = y"
  "rw (Rect x y w h) = w" "rh (Rect x y w h) = h"
  by (simp_all add: Rect_def)

text \<open>
  \<^verbatim>\<open>A.colliderect(B)\<close>: rectangles of zero width or height never collide;
  otherwise the half-open extents of both rectangles overlap on both axes. A
  negative size spans to the left of (or above) the anchor point, hence the
  \<open>min\<close>/\<open>max\<close>; every rectangle of the game has a positive size.
\<close>

definition colliderect :: "rect \<Rightarrow> rect \<Rightarrow> bool" where
  "colliderect a b \<longleftrightarrow>
     rw a \<noteq> 0 \<and> rh a \<noteq> 0 \<and> rw b \<noteq> 0 \<and> rh b \<noteq> 0 \<and>
     min (rx a) (rx a + rw a) < max (rx b) (rx b + rw b) \<and>
     min (ry a) (ry a + rh a) < max (ry b) (ry b + rh b) \<and>
     max (rx a) (rx a + rw a) > min (rx b) (rx b + rw b) \<and>
     max (ry a) (ry a + rh a) > min (ry b) (ry b + rh b)"

text \<open>
  pygame keeps the four fields in C \<open>int\<close>s (SDL's \<open>SDL_Rect\<close>). Assigning
  \<^verbatim>\<open>rect.x = v\<close>, or building \<^verbatim>\<open>pygame.Rect(x, y, w, h)\<close>, converts each
  Python int with \<^verbatim>\<open>PyLong_AsLong\<close>. Where C \<open>long\<close> has 32 bits, as
  on the Windows build the hard-coded sound path of line 63 targets, a value outside
  \<open>[INT_MIN, INT_MAX]\<close> makes the conversion fail and pygame raises
  \<open>TypeError\<close>. \<open>set_rx\<close> is the checked assignment and \<open>new_rect\<close> the
  checked constructor.
\<close>

definition INT_MIN :: int where "INT_MIN = - (2 ^ 31)"
definition INT_MAX :: int where "INT_MAX = 2 ^ 31 - 1"

definition in_c_int :: "int \<Rightarrow> bool" where
  "in_c_int v \<longleftrightarrow> INT_MIN \<le> v \<and> v \<le> INT_MAX"

definition c_int :: "int \<Rightarrow> int py_result" where
  "c_int v = (if in_c_int v then Inr v else Inl TypeError)"

definition set_rx :: "int \<Rightarrow> rect \<Rightarrow> rect py_result" where
  "set_rx v r = bindE (c_int v) (\<lambda>x. Inr (r\<lparr>rx := x\<rparr>))"

definition new_rect :: "int \<Rightarrow> int \<Rightarrow> int \<Rightarrow> int \<Rightarrow> rect py_result" where
  "new_rect x y w h =
     bindE (c_int x) (\<lambda>x. bindE (c_int y) (\<lambda>y. bindE (c_int w) (\<lambda>w. bindE (c_int h) (\<lambda>h. Inr (Rect x y w h)))))"

text \<open>
  The truth value of a rectangle, read by \<^verbatim>\<open>if boss:\<close> and
  \<^verbatim>\<open>not boss\<close> (lines 86, 112, 136, 156, 239): a \<^verbatim>\<open>pygame.Rect\<close> is
  false when its width or its height is 0, and \<^verbatim>\<open>None\<close> is false.
\<close>

definition rect_bool :: "rect option \<Rightarrow> bool" where
  "rect_bool r = (case r of None \<Rightarrow> False | Some b \<Rightarrow> rw b \<noteq> 0 \<and> rh b \<noteq> 0)"

text \<open>For rectangles of positive size the test is the familiar open-interval overlap.\<close>

lemma colliderect_pos:
  assumes "0 < rw a" "0 < rh a" "0 < rw b" "0 < rh b"
  shows "colliderect a b \<longleftrightarrow>
    rx a < rx b + rw b \<and> ry a < ry b + rh b \<and> rx b < rx a + rw a \<and> ry b < ry a + rh a"
  using assms by (auto simp add: colliderect_def)

section \<open>Checked coordinates\<close>

lemma in_c_int_iff: "in_c_int v \<longleftrightarrow> - 2147483648 \<le> v \<and> v \<le> 2147483647"
  by (simp add: in_c_int_def INT_MIN_def INT_MAX_def)

lemma c_int_in [simp]: "in_c_int v \<Longrightarrow> c_int v = Inr v"
  by (simp add: c_int_def)

lemma c_int_out [simp]: "\<not> in_c_int v \<Longrightarrow> c_int v = Inl TypeError"
  by (simp add: c_int_def)

lemma set_rx_eq: "set_rx v r = (if in_c_int v then Inr (r\<lparr>rx := v\<rparr>) else Inl TypeError)"
  by (simp add: set_rx_def)

lemma new_rect_eq:
  "new_rect x y w h = (if in_c_int x \<and> in_c_int y \<and> in_c_int w \<and> in_c_int h then Inr (Rect x y w h) else Inl TypeError)"
  by (auto simp add: new_rect_def c_int_def)

end
