(* ===== verification/Game_State.thy ===== *)
theory Game_State
  imports Rect
begin

text \<open>
  The module-level state of \<^verbatim>\<open>src/game.py\<close> (lines 31--69) as one record,
  the audio sink, the derived game mode and \<^verbatim>\<open>reset_boss\<close>, which both the
  motion and the collision code call.
\<close>

section \<open>Sounds\<close>

text \<open>
  The audio cues the code plays. \<^verbatim>\<open>boss_hit_sound\<close> is played (line 139)
  but never loaded: lines 66--69 bind only the other four names.
\<close>

datatype cue = Bullet_sound | Game_over_sound | Enemy_hit_sound | Boss_intro_sound | Boss_hit_sound

fun cue_name :: "cue \<Rightarrow> string" where
  "cue_name Bullet_sound = ''bullet_sound''"
| "cue_name Game_over_sound = ''game_over_sound''"
| "cue_name Enemy_hit_sound = ''enemy_hit_sound''"
| "cue_name Boss_intro_sound = ''boss_intro_sound''"
| "cue_name Boss_hit_sound = ''boss_hit_sound''"

section \<open>The game state\<close>

text \<open>
  A player bullet is the tuple \<^verbatim>\<open>(rect, dir_x, dir_y)\<close> of line 230; enemy
  bullets, enemies, the boss and the player are bare rectangles.
\<close>

type_synonym pbullet = "rect \<times> int \<times> int"

text \<open>
  One field per global the game loop mutates. \<open>sound_names\<close> is the set of
  sound globals bound at start-up (lines 66--69); \<open>played\<close> records the cues
  handed to the audio sink, in order.
\<close>

record game =
  player :: rect
  player_bullets :: "pbullet list"
  enemy_bullets :: "rect list"
  enemies :: "rect list"
  boss :: "rect option"
  boss_health :: int
  boss_stage :: bool
  score :: int
  is_game_over :: bool
  in_start_menu :: bool
  running :: bool
  sound_names :: "cue list"
  played :: "cue list"

definition player_speed :: int where "player_speed = 5"

definition loaded_sounds :: "cue list" where
  "loaded_sounds = [Bullet_sound, Game_over_sound, Enemy_hit_sound, Boss_intro_sound]"

text \<open>The state after the module's top-level statements, before the first frame.\<close>

definition init_game :: game where
  "init_game = \<lparr>player = Rect (WIDTH div 2) (HEIGHT - PLAYER_SIZE - 10) PLAYER_SIZE PLAYER_SIZE,
     player_bullets = [], enemy_bullets = [], enemies = [],
     boss = None, boss_health = 20, boss_stage = False, score = 0,
     is_game_over = False, in_start_menu = True, running = True,
     sound_names = loaded_sounds, played = []\<rparr>"

section \<open>Playing a cue\<close>

text \<open>
  \<^verbatim>\<open>s.play()\<close> first reads the global \<open>s\<close>: an unbound name raises
  \<open>NameError\<close>; a bound one hands the cue to the sink.
\<close>

definition play :: "cue \<Rightarrow> game \<Rightarrow> game py_result" where
  "play c g = (if c \<in> set (sound_names g) then Inr (g\<lparr>played := played g @ [c]\<rparr>)
               else Inl (NameError (cue_name c)))"

section \<open>Modes\<close>

text \<open>
  The loop's dispatch (lines 204--213) reads two flags; the mode is derived from
  them in the order the code tests them.
\<close>

datatype mode = Start | Playing | GameOver

definition mode :: "game \<Rightarrow> mode" where
  "mode g = (if in_start_menu g then Start else if is_game_over g then GameOver else Playing)"

section \<open>\<^verbatim>\<open>reset_boss\<close>\<close>

definition reset_boss :: "game \<Rightarrow> game" where
  "reset_boss g = g\<lparr>boss := None, boss_health := 20, boss_stage := False\<rparr>"

section \<open>Basic facts\<close>

lemma play_Inr [py_simps]:
  "play c g = Inr g' \<longleftrightarrow> c \<in> set (sound_names g) \<and> g' = g\<lparr>played := played g @ [c]\<rparr>"
  by (auto simp add: play_def)

lemma play_loaded [simp]:
  "c \<in> set (sound_names g) \<Longrightarrow> play c g = Inr (g\<lparr>played := played g @ [c]\<rparr>)"
  by (simp add: play_def)

lemma play_unbound [simp]:
  "c \<notin> set (sound_names g) \<Longrightarrow> play c g = Inl (NameError (cue_name c))"
  by (simp add: play_def)

lemma mode_Playing: "mode g = Playing \<longleftrightarrow> \<not> in_start_menu g \<and> \<not> is_game_over g"
  by (simp add: mode_def)

lemma mode_GameOver: "mode g = GameOver \<longleftrightarrow> \<not> in_start_menu g \<and> is_game_over g"
  by (simp add: mode_def)

lemma mode_Start: "mode g = Start \<longleftrightarrow> in_start_menu g"
  by (simp add: mode_def)

lemma loaded_sounds_set:
  "set loaded_sounds = {Bullet_sound, Game_over_sound, Enemy_hit_sound, Boss_intro_sound}"
  by (simp add: loaded_sounds_def)

lemma Boss_hit_not_loaded: "Boss_hit_sound \<notin> set loaded_sounds"
  by (simp add: loaded_sounds_def)

end
