(* ===== verification/Motion.thy ===== *)
theory Motion
  imports Game_State
begin

text \<open>
  The motion system of \<^verbatim>\<open>src/game.py\<close>: \<^verbatim>\<open>move_bullets\<close>,
  \<^verbatim>\<open>move_enemies\<close> and \<^verbatim>\<open>move_boss\<close> (lines 92--115). The first two
  are instances of one Python idiom, modelled once with an explicit heap:
  iterate over a copy of a list, mutate each object in place, and
  \<^verbatim>\<open>remove\<close> it from the live list (by value) when it has left the field.
  The main result is that the idiom never raises and computes
  \<open>filter\<close> after \<open>map\<close>.
\<close>

section \<open>The remove-while-iterating loop\<close>

text \<open>
  Objects are named by their position in the list the loop starts from: the
  heap holds their current values, the live list and the snapshot hold
  references. Every object of the game's lists is created by its own
  constructor call, so the references of one list are distinct.
  \<open>remove_ref heap v live\<close> is \<^verbatim>\<open>live.remove(v)\<close>: the first reference
  whose object equals \<open>v\<close> goes, and \<open>ValueError\<close> if there is none.
\<close>

fun remove_ref :: "'a list \<Rightarrow> 'a \<Rightarrow> nat list \<Rightarrow> nat list py_result" where
  "remove_ref heap v [] = Inl ValueError"
| "remove_ref heap v (r # rs) =
     (if heap ! r = v then Inr rs else bindE (remove_ref heap v rs) (\<lambda>rs'. Inr (r # rs')))"

text \<open>
  \<^verbatim>\<open>for o in xs[:]: o.mutate(); if out(o): xs.remove(o)\<close>, with \<open>f\<close> the
  mutation and \<open>out\<close> the removal test, both read on the object after the
  mutation.
\<close>

fun move_loop :: "('a \<Rightarrow> 'a) \<Rightarrow> ('a \<Rightarrow> bool) \<Rightarrow> nat list \<Rightarrow> 'a list \<Rightarrow> nat list
    \<Rightarrow> ('a list \<times> nat list) py_result" where
  "move_loop f out [] heap live = Inr (heap, live)"
| "move_loop f out (i # snap) heap live =
     (let heap' = heap[i := f (heap ! i)] in
      if out (heap' ! i)
      then bindE (remove_ref heap' (heap' ! i) live) (move_loop f out snap heap')
      else move_loop f out snap heap' live)"

definition move_all :: "('a \<Rightarrow> 'a) \<Rightarrow> ('a \<Rightarrow> bool) \<Rightarrow> 'a list \<Rightarrow> 'a list py_result" where
  "move_all f out xs =
     (let refs = [0..<length xs] in
      bindE (move_loop f out refs xs refs) (\<lambda>(heap, live). Inr (map ((!) heap) live)))"

section \<open>The loop computes filter after map\<close>

lemma remove_ref_first:
  assumes "\<forall>r\<in>set ys. heap ! r \<noteq> v" and "heap ! k = v"
  shows "remove_ref heap v (ys @ k # zs) = Inr (ys @ zs)"
  using assms by (induction ys) auto

text \<open>The heap after the first \<open>k\<close> iterations: those objects moved, the rest not yet.\<close>

definition heap_at :: "('a \<Rightarrow> 'a) \<Rightarrow> 'a list \<Rightarrow> nat \<Rightarrow> 'a list" where
  "heap_at f xs k = map (\<lambda>r. if r < k then f (xs ! r) else xs ! r) [0..<length xs]"

lemma heap_at_nth [simp]: "r < length xs \<Longrightarrow> heap_at f xs k ! r = (if r < k then f (xs ! r) else xs ! r)"
  by (simp add: heap_at_def)

lemma length_heap_at [simp]: "length (heap_at f xs k) = length xs"
  by (simp add: heap_at_def)

lemma heap_at_0: "heap_at f xs 0 = xs"
  by (simp add: heap_at_def map_nth)

lemma heap_at_step: "k < length xs \<Longrightarrow> (heap_at f xs k)[k := f (heap_at f xs k ! k)] = heap_at f xs (Suc k)"
  by (rule nth_equalityI) (auto simp add: nth_list_update)

lemma heap_at_length: "heap_at f xs (length xs) = map f xs"
  by (rule nth_equalityI) auto

text \<open>
  The loop invariant: after \<open>k\<close> iterations the live list holds the moved
  objects that stayed, followed by all unvisited ones. An object that leaves is
  never equal to one that stayed, so \<^verbatim>\<open>remove\<close> deletes that object itself.
\<close>

lemma move_loop_inv:
  assumes "k \<le> length xs"
  shows "move_loop f out [k..<length xs] (heap_at f xs k)
           (filter (\<lambda>r. \<not> out (f (xs ! r))) [0..<k] @ [k..<length xs])
         = Inr (map f xs, filter (\<lambda>r. \<not> out (f (xs ! r))) [0..<length xs])"
  using assms
proof (induction "length xs - k" arbitrary: k)
  case 0
  then have "k = length xs" by simp
  then show ?case by (simp add: heap_at_length)
next
  case (Suc m)
  let ?P = "\<lambda>r. \<not> out (f (xs ! r))"
  from Suc.hyps(2) have k: "k < length xs" by simp
  have IH: "move_loop f out [Suc k..<length xs] (heap_at f xs (Suc k))
           (filter ?P [0..<Suc k] @ [Suc k..<length xs])
         = Inr (map f xs, filter ?P [0..<length xs])"
    using Suc.hyps k by (intro Suc.hyps(1)) simp_all
  have upt: "[k..<length xs] = k # [Suc k..<length xs]"
    using k by (simp add: upt_conv_Cons)
  have hk: "heap_at f xs (Suc k) ! k = f (xs ! k)"
    using k by simp
  show ?case
  proof (cases "out (f (xs ! k))")
    case True
    have "\<forall>r\<in>set (filter ?P [0..<k]). heap_at f xs (Suc k) ! r \<noteq> f (xs ! k)"
      using True k by auto
    then have "remove_ref (heap_at f xs (Suc k)) (f (xs ! k))
                 (filter ?P [0..<k] @ k # [Suc k..<length xs])
               = Inr (filter ?P [0..<k] @ [Suc k..<length xs])"
      using hk by (rule remove_ref_first)
    with True IH k show ?thesis
      by (simp add: upt heap_at_step [OF k, symmetric] Let_def)
  next
    case False
    with IH k show ?thesis
      by (simp add: upt heap_at_step [OF k, symmetric] Let_def)
  qed
qed

lemma move_all_eq_filter_map:
  "move_all f out xs = Inr (filter (\<lambda>v. \<not> out v) (map f xs))"
proof -
  have "move_loop f out [0..<length xs] xs [0..<length xs]
        = Inr (map f xs, filter (\<lambda>r. \<not> out (f (xs ! r))) [0..<length xs])"
    using move_loop_inv [of 0 xs f out] by (simp add: heap_at_0)
  moreover have "filter (\<lambda>r. \<not> out (f (xs ! r))) [0..<length xs]
        = filter (\<lambda>r. \<not> out (map f xs ! r)) [0..<length xs]"
    by (rule filter_cong) simp_all
  then have "map ((!) (map f xs)) (filter (\<lambda>r. \<not> out (f (xs ! r))) [0..<length xs])
        = filter (\<lambda>v. \<not> out v) (map f xs)"
    using map_nth_filter_upt [where P = "\<lambda>v. \<not> out v" and ys = "map f xs"] by simp
  ultimately show ?thesis by (simp add: move_all_def)
qed

section \<open>The three motion routines\<close>

text \<open>Lines 93--98: a player bullet moves by its direction and leaves by the top, left or right edge.\<close>

definition move_pbullet :: "pbullet \<Rightarrow> pbullet" where
  "move_pbullet b = (case b of (r, dir_x, dir_y) \<Rightarrow> (r\<lparr>rx := rx r + dir_x, ry := ry r + dir_y\<rparr>, dir_x, dir_y))"

definition pbullet_gone :: "pbullet \<Rightarrow> bool" where
  "pbullet_gone b = (case b of (r, _, _) \<Rightarrow> ry r < 0 \<or> rx r < 0 \<or> rx r > WIDTH)"

text \<open>Lines 101--102 and 107--108: enemy bullets fall by 5, enemies by 2; both leave below the field.\<close>

definition ebullet_step :: "rect \<Rightarrow> rect" where
  "ebullet_step r = r\<lparr>ry := ry r + 5\<rparr>"

definition enemy_step :: "rect \<Rightarrow> rect" where
  "enemy_step r = r\<lparr>ry := ry r + 2\<rparr>"

definition below_field :: "rect \<Rightarrow> bool" where
  "below_field r \<longleftrightarrow> HEIGHT < ry r"

definition move_bullets :: "game \<Rightarrow> game py_result" where
  "move_bullets g =
     bindE (move_all move_pbullet pbullet_gone (player_bullets g)) (\<lambda>pbs.
       let g1 = g\<lparr>player_bullets := pbs\<rparr> in
       bindE (move_all ebullet_step below_field (enemy_bullets g1)) (\<lambda>ebs.
         Inr (g1\<lparr>enemy_bullets := ebs\<rparr>)))"

definition move_enemies :: "game \<Rightarrow> game py_result" where
  "move_enemies g =
     bindE (move_all enemy_step below_field (enemies g)) (\<lambda>ens. Inr (g\<lparr>enemies := ens\<rparr>))"

text \<open>
  Lines 111--115. \<^verbatim>\<open>if boss:\<close> tests the truth of a \<^verbatim>\<open>Rect\<close>, which is
  false only for a rectangle of zero size; the boss is always 100 by 100, so
  the test is \<open>boss \<noteq> None\<close>.
\<close>

definition move_boss :: "game \<Rightarrow> game" where
  "move_boss g = (case boss g of
       None \<Rightarrow> g
     | Some b \<Rightarrow>
         let g1 = g\<lparr>boss := Some (b\<lparr>ry := ry b + 1\<rparr>)\<rparr> in
         if HEIGHT < ry b + 1 then reset_boss g1 else g1)"

section \<open>Behaviour of the motion routines\<close>

text \<open>
  C1. \<^verbatim>\<open>move_bullets\<close> never raises, and leaves exactly the moved
  player bullets that are still inside the top, left and right edges and the
  moved enemy bullets still above the bottom edge, in their original order.
\<close>

theorem move_bullets_eq:
  "move_bullets g = Inr (g\<lparr>player_bullets := filter (\<lambda>b. \<not> pbullet_gone b) (map move_pbullet (player_bullets g)),
                         enemy_bullets := filter (\<lambda>r. \<not> below_field r) (map ebullet_step (enemy_bullets g))\<rparr>)"
  by (simp add: move_bullets_def move_all_eq_filter_map)

text \<open>
  C2. \<^verbatim>\<open>move_enemies\<close> never raises, and leaves exactly the moved enemies
  that have not passed the bottom edge, in their original order.
\<close>

theorem move_enemies_eq:
  "move_enemies g = Inr (g\<lparr>enemies := filter (\<lambda>r. \<not> below_field r) (map enemy_step (enemies g))\<rparr>)"
  by (simp add: move_enemies_def move_all_eq_filter_map)

end
