(* ===== verification/Collision.thy ===== *)
theory Collision
  imports Game_State
begin

text \<open>
  The collision system of \<^verbatim>\<open>src/game.py\<close>: \<^verbatim>\<open>check_collisions\<close>
  (lines 123--158). Nothing in it mutates a rectangle, so the lists are lists of
  values and \<^verbatim>\<open>list.remove\<close> is \<open>py_remove\<close>. Its four passes are one
  definition each, composed in the order of the code.
\<close>

section \<open>Player bullets against enemies and the boss\<close>

text \<open>
  Lines 129--134, for one bullet \<open>b\<close>: the inner loop runs over a copy of the
  enemies taken before it starts. On a hit the bullet and the enemy are removed
  and the score grows by 10; the loop does not stop, so a second hit by the same
  bullet removes it again.
\<close>

fun hit_enemies :: "pbullet \<Rightarrow> rect list \<Rightarrow> game \<Rightarrow> game py_result" where
  "hit_enemies b [] g = Inr g"
| "hit_enemies b (e # es) g =
     (if colliderect (fst b) e then
        bindE (py_remove b (player_bullets g)) (\<lambda>pbs.
        bindE (py_remove e (enemies g)) (\<lambda>ens.
        bindE (play Enemy_hit_sound (g\<lparr>player_bullets := pbs, enemies := ens, score := score g + 10\<rparr>))
          (hit_enemies b es)))
      else hit_enemies b es g)"

text \<open>
  Lines 136--142: the same bullet against the boss, if there is one. The
  decrement happens before \<^verbatim>\<open>boss_hit_sound.play()\<close>, the kill bonus after.
\<close>

definition hit_boss :: "pbullet \<Rightarrow> game \<Rightarrow> game py_result" where
  "hit_boss b g = (case boss g of
       None \<Rightarrow> Inr g
     | Some bo \<Rightarrow>
         if colliderect (fst b) bo then
           bindE (py_remove b (player_bullets g)) (\<lambda>pbs.
           bindE (play Boss_hit_sound (g\<lparr>player_bullets := pbs, boss_health := boss_health g - 1\<rparr>)) (\<lambda>g1.
             Inr (if boss_health g1 \<le> 0 then (reset_boss g1)\<lparr>score := score g1 + 100\<rparr> else g1)))
         else Inr g)"

text \<open>Line 127: the outer loop runs over a copy of the player bullets.\<close>

fun bullets_loop :: "pbullet list \<Rightarrow> game \<Rightarrow> game py_result" where
  "bullets_loop [] g = Inr g"
| "bullets_loop (b # bs) g =
     bindE (hit_enemies b (enemies g) g) (\<lambda>g1. bindE (hit_boss b g1) (bullets_loop bs))"

section \<open>Hits on the player\<close>

text \<open>
  Lines 145--154: every enemy bullet, then every enemy, that touches the player
  ends the game and plays the game-over cue, once per hit. The argument order of
  \<^verbatim>\<open>colliderect\<close> differs between the two loops; \<open>hit\<close> is the test.
\<close>

fun player_struck :: "(rect \<Rightarrow> bool) \<Rightarrow> rect list \<Rightarrow> game \<Rightarrow> game py_result" where
  "player_struck hit [] g = Inr g"
| "player_struck hit (r # rs) g =
     (if hit r then bindE (play Game_over_sound (g\<lparr>is_game_over := True\<rparr>)) (player_struck hit rs)
      else player_struck hit rs g)"

text \<open>Lines 156--158.\<close>

definition boss_struck :: "game \<Rightarrow> game py_result" where
  "boss_struck g = (case boss g of
       None \<Rightarrow> Inr g
     | Some bo \<Rightarrow> if colliderect (player g) bo then play Game_over_sound (g\<lparr>is_game_over := True\<rparr>) else Inr g)"

definition check_collisions :: "game \<Rightarrow> game py_result" where
  "check_collisions g =
     bindE (bullets_loop (player_bullets g) g) (\<lambda>g1.
     bindE (player_struck (\<lambda>b. colliderect b (player g1)) (enemy_bullets g1) g1) (\<lambda>g2.
     bindE (player_struck (\<lambda>e. colliderect (player g2) e) (enemies g2) g2) boss_struck))"

section \<open>What each pass changes\<close>

text \<open>One hit of the inner loop, unfolded: the bullet and the enemy were present and removed.\<close>

lemma hit_enemies_Cons_hit:
  assumes "colliderect (fst b) e" and "hit_enemies b (e # es) g = Inr g'"
  shows "b \<in> set (player_bullets g) \<and> e \<in> set (enemies g) \<and> Enemy_hit_sound \<in> set (sound_names g) \<and>
    hit_enemies b es (g\<lparr>player_bullets := remove1 b (player_bullets g), enemies := remove1 e (enemies g),
                        score := score g + 10, played := played g @ [Enemy_hit_sound]\<rparr>) = Inr g'"
  using assms by (auto simp add: py_simps py_remove_Inr)

lemma int_length_remove1:
  "x \<in> set xs \<Longrightarrow> int (length (remove1 x xs)) = int (length xs) - 1"
proof -
  assume "x \<in> set xs"
  then have "1 \<le> length xs" and "length (remove1 x xs) = length xs - 1"
    by (auto simp add: length_remove1_mem Suc_le_eq length_pos_if_in_set)
  then show ?thesis by (simp add: of_nat_diff)
qed

text \<open>
  The inner loop changes only the two lists, the score and the cue trace; it
  only removes; and every enemy it removes is paid for with 10 points.
\<close>

lemma hit_enemies_Inr:
  "hit_enemies b es g = Inr g' \<Longrightarrow>
     (\<exists>pbs ens sc cues. g' = g\<lparr>player_bullets := pbs, enemies := ens, score := sc, played := cues\<rparr>) \<and>
     set (enemies g') \<subseteq> set (enemies g) \<and> set (player_bullets g') \<subseteq> set (player_bullets g) \<and>
     score g' + 10 * int (length (enemies g')) = score g + 10 * int (length (enemies g)) \<and>
     score g \<le> score g'"
proof (induction es arbitrary: g)
  case Nil
  then have "g' = g\<lparr>player_bullets := player_bullets g, enemies := enemies g, score := score g,
                      played := played g\<rparr>"
    by simp
  with Nil show ?case by fastforce
next
  case (Cons e es)
  show ?case
  proof (cases "colliderect (fst b) e")
    case True
    let ?g1 = "g\<lparr>player_bullets := remove1 b (player_bullets g), enemies := remove1 e (enemies g),
                 score := score g + 10, played := played g @ [Enemy_hit_sound]\<rparr>"
    from hit_enemies_Cons_hit [OF True Cons.prems]
    have mem: "e \<in> set (enemies g)" and rest: "hit_enemies b es ?g1 = Inr g'"
      by simp_all
    have len: "int (length (enemies ?g1)) = int (length (enemies g)) - 1"
      using mem by (simp add: int_length_remove1)
    from Cons.IH [OF rest] obtain pbs ens sc cues
      where eq: "g' = ?g1\<lparr>player_bullets := pbs, enemies := ens, score := sc, played := cues\<rparr>"
      by blast
    from Cons.IH [OF rest] len eq show ?thesis
      using set_remove1_subset [of e "enemies g"] set_remove1_subset [of b "player_bullets g"]
      by auto
  next
    case False
    with Cons show ?thesis by simp
  qed
qed

text \<open>
  What the bullet passes may change: they never move the player, touch the enemy
  bullets or the mode flags, only remove bullets and enemies, and can only clear
  the boss. \<open>kill_bonus\<close> is the score a pass owes for clearing the boss.
\<close>

definition collision_frame :: "game \<Rightarrow> game \<Rightarrow> bool" where
  "collision_frame g g' \<longleftrightarrow>
     player g' = player g \<and> enemy_bullets g' = enemy_bullets g \<and> is_game_over g' = is_game_over g \<and>
     in_start_menu g' = in_start_menu g \<and> running g' = running g \<and> sound_names g' = sound_names g \<and>
     set (player_bullets g') \<subseteq> set (player_bullets g) \<and> set (enemies g') \<subseteq> set (enemies g) \<and>
     (boss g' = boss g \<or> boss g' = None) \<and> score g \<le> score g'"

definition kill_bonus :: "game \<Rightarrow> game \<Rightarrow> int" where
  "kill_bonus g g' = (if boss g \<noteq> None \<and> boss g' = None then 100 else 0)"

lemma kill_bonus_same_boss: "boss g' = boss g \<Longrightarrow> kill_bonus g g' = 0"
  by (cases "boss g") (simp_all add: kill_bonus_def)

lemma kill_bonus_refl [simp]: "kill_bonus g g = 0"
  by (rule kill_bonus_same_boss) (rule refl)

lemma collision_frame_refl [simp]: "collision_frame g g"
  by (simp add: collision_frame_def)

lemma collision_frame_trans:
  "collision_frame g g1 \<Longrightarrow> collision_frame g1 g2 \<Longrightarrow> collision_frame g g2"
  by (auto simp add: collision_frame_def)

lemma kill_bonus_nonneg: "0 \<le> kill_bonus g g'"
  by (simp add: kill_bonus_def)

lemma kill_bonus_trans:
  "collision_frame g g1 \<Longrightarrow> collision_frame g1 g2 \<Longrightarrow>
     kill_bonus g g1 + kill_bonus g1 g2 = kill_bonus g g2"
  by (auto simp add: collision_frame_def kill_bonus_def)

lemma hit_enemies_collision_frame:
  "hit_enemies b es g = Inr g' \<Longrightarrow> collision_frame g g' \<and> boss g' = boss g"
  by (drule hit_enemies_Inr) (auto simp add: collision_frame_def)

text \<open>The three outcomes of \<open>hit_boss\<close>: a miss, a hit the boss survives, and the kill.\<close>

lemma hit_boss_cases:
  assumes "hit_boss b g = Inr g'"
  shows "g' = g \<or>
    (\<exists>bo. boss g = Some bo \<and> b \<in> set (player_bullets g) \<and> Boss_hit_sound \<in> set (sound_names g) \<and>
       (let g1 = g\<lparr>player_bullets := remove1 b (player_bullets g), boss_health := boss_health g - 1,
                  played := played g @ [Boss_hit_sound]\<rparr>
        in g' = (if boss_health g - 1 \<le> 0 then (reset_boss g1)\<lparr>score := score g + 100\<rparr> else g1)))"
  using assms by (cases "boss g") (auto simp add: hit_boss_def py_simps py_remove_Inr Let_def split: if_splits)

lemma hit_boss_collision_frame:
  assumes h: "hit_boss b g = Inr g'"
  shows "collision_frame g g' \<and> enemies g' = enemies g \<and> score g' = score g + kill_bonus g g'"
  using hit_boss_cases [OF h] kill_bonus_nonneg [of g g']
proof (elim disjE exE conjE)
  assume "g' = g"
  then show ?thesis by simp
next
  fix bo
  assume bo: "boss g = Some bo"
    and eq: "let g1 = g\<lparr>player_bullets := remove1 b (player_bullets g), boss_health := boss_health g - 1,
                  played := played g @ [Boss_hit_sound]\<rparr>
        in g' = (if boss_health g - 1 \<le> 0 then (reset_boss g1)\<lparr>score := score g + 100\<rparr> else g1)"
  have sub: "set (remove1 b (player_bullets g)) \<subseteq> set (player_bullets g)"
    by (rule set_remove1_subset)
  show ?thesis
  proof (cases "boss_health g - 1 \<le> 0")
    case True
    with eq bo sub show ?thesis
      by (simp add: collision_frame_def kill_bonus_def reset_boss_def Let_def)
  next
    case False
    with eq bo sub show ?thesis
      by (simp add: collision_frame_def kill_bonus_def Let_def)
  qed
qed

lemma bullets_loop_Inr:
  "bullets_loop bs g = Inr g' \<Longrightarrow>
     collision_frame g g' \<and>
     score g' + 10 * int (length (enemies g')) = score g + 10 * int (length (enemies g)) + kill_bonus g g'"
proof (induction bs arbitrary: g)
  case Nil
  then show ?case by simp
next
  case (Cons b bs)
  then obtain g1 g2 where h1: "hit_enemies b (enemies g) g = Inr g1"
    and h2: "hit_boss b g1 = Inr g2" and h3: "bullets_loop bs g2 = Inr g'"
    by (auto simp add: py_simps)
  note f1 = hit_enemies_collision_frame [OF h1] and s1 = hit_enemies_Inr [OF h1]
  note f2 = hit_boss_collision_frame [OF h2]
  note f3 = Cons.IH [OF h3]
  have b1: "kill_bonus g g1 = 0"
    using f1 by (simp add: kill_bonus_same_boss)
  have fr: "collision_frame g g2"
    using f1 f2 by (blast intro: collision_frame_trans)
  have "kill_bonus g g2 + kill_bonus g2 g' = kill_bonus g g'"
    using fr f3 by (blast intro: kill_bonus_trans)
  moreover have "kill_bonus g g1 + kill_bonus g1 g2 = kill_bonus g g2"
    using f1 f2 by (blast intro: kill_bonus_trans)
  ultimately show ?case
    using s1 f2 f3 b1 fr by (auto intro: collision_frame_trans)
qed

section \<open>Hits on the player, exactly\<close>

lemma player_struck_eq:
  "Game_over_sound \<in> set (sound_names g) \<Longrightarrow>
     player_struck hit rs g =
       Inr (g\<lparr>is_game_over := is_game_over g \<or> (\<exists>r\<in>set rs. hit r),
              played := played g @ replicate (length (filter hit rs)) Game_over_sound\<rparr>)"
  by (induction rs arbitrary: g) auto

lemma boss_struck_eq:
  "Game_over_sound \<in> set (sound_names g) \<Longrightarrow>
     boss_struck g =
       Inr (case boss g of None \<Rightarrow> g
            | Some bo \<Rightarrow> if colliderect (player g) bo
                         then g\<lparr>is_game_over := True, played := played g @ [Game_over_sound]\<rparr> else g)"
  by (simp add: boss_struck_def split: option.splits)

lemma player_struck_frame:
  "player_struck hit rs g = Inr g' \<Longrightarrow> \<exists>go cues. g' = g\<lparr>is_game_over := go, played := cues\<rparr>"
proof (induction rs arbitrary: g)
  case Nil
  then have "g' = g\<lparr>is_game_over := is_game_over g, played := played g\<rparr>" by simp
  then show ?case by blast
next
  case (Cons r rs)
  then show ?case by (fastforce simp add: py_simps split: if_splits)
qed

lemma boss_struck_frame:
  "boss_struck g = Inr g' \<Longrightarrow> \<exists>go cues. g' = g\<lparr>is_game_over := go, played := cues\<rparr>"
proof -
  assume h: "boss_struck g = Inr g'"
  have refl: "g = g\<lparr>is_game_over := is_game_over g, played := played g\<rparr>" by simp
  from h have "g' = g \<or> g' = g\<lparr>is_game_over := True, played := played g @ [Game_over_sound]\<rparr>"
    by (cases "boss g") (auto simp add: boss_struck_def py_simps split: if_splits)
  with refl show ?thesis by blast
qed

lemma player_struck_over:
  "player_struck hit rs g = Inr g' \<Longrightarrow> is_game_over g \<Longrightarrow> is_game_over g'"
  by (induction rs arbitrary: g) (auto simp add: py_simps split: if_splits)

lemma boss_struck_over:
  "boss_struck g = Inr g' \<Longrightarrow> is_game_over g \<Longrightarrow> is_game_over g'"
  by (cases "boss g") (auto simp add: boss_struck_def py_simps split: if_splits)

text \<open>The three player passes of \<open>check_collisions\<close> after the bullet pass.\<close>

definition player_passes :: "game \<Rightarrow> game py_result" where
  "player_passes g1 =
     bindE (player_struck (\<lambda>b. colliderect b (player g1)) (enemy_bullets g1) g1) (\<lambda>g2.
     bindE (player_struck (\<lambda>e. colliderect (player g2) e) (enemies g2) g2) boss_struck)"

lemma check_collisions_split:
  "check_collisions g = bindE (bullets_loop (player_bullets g) g) player_passes"
  by (simp add: check_collisions_def player_passes_def [abs_def])

lemma player_passes_frame:
  assumes "player_passes g = Inr g'"
  shows "\<exists>go cues. g' = g\<lparr>is_game_over := go, played := cues\<rparr>"
proof -
  from assms obtain g2 g3 where
    h2: "player_struck (\<lambda>b. colliderect b (player g)) (enemy_bullets g) g = Inr g2" and
    h3: "player_struck (\<lambda>e. colliderect (player g2) e) (enemies g2) g2 = Inr g3" and
    h4: "boss_struck g3 = Inr g'"
    by (auto simp add: player_passes_def py_simps)
  obtain go2 cues2 where e2: "g2 = g\<lparr>is_game_over := go2, played := cues2\<rparr>"
    using player_struck_frame [OF h2] by blast
  obtain go3 cues3 where e3: "g3 = g2\<lparr>is_game_over := go3, played := cues3\<rparr>"
    using player_struck_frame [OF h3] by blast
  obtain go4 cues4 where e4: "g' = g3\<lparr>is_game_over := go4, played := cues4\<rparr>"
    using boss_struck_frame [OF h4] by blast
  have "g' = g\<lparr>is_game_over := go4, played := cues4\<rparr>"
    by (simp add: e2 e3 e4)
  then show ?thesis by blast
qed

lemma player_passes_eq:
  assumes "Game_over_sound \<in> set (sound_names g)" and "player_passes g = Inr g'"
  shows "is_game_over g' \<longleftrightarrow> is_game_over g \<or> (\<exists>b\<in>set (enemy_bullets g). colliderect b (player g)) \<or>
           (\<exists>e\<in>set (enemies g). colliderect (player g) e) \<or>
           (\<exists>bo. boss g = Some bo \<and> colliderect (player g) bo)"
  using assms by (auto simp add: player_passes_def player_struck_eq boss_struck_eq split: option.splits)

text \<open>With \<^verbatim>\<open>boss_hit_sound\<close> unbound, a successful \<open>hit_boss\<close> did not hit.\<close>

lemma hit_boss_unbound_Inr:
  "Boss_hit_sound \<notin> set (sound_names g) \<Longrightarrow> hit_boss b g = Inr g' \<Longrightarrow> g' = g"
  by (drule hit_boss_cases) auto

lemma bullets_loop_unbound_boss:
  "Boss_hit_sound \<notin> set (sound_names g) \<Longrightarrow> bullets_loop bs g = Inr g' \<Longrightarrow>
     boss g' = boss g \<and> boss_health g' = boss_health g \<and> boss_stage g' = boss_stage g"
proof (induction bs arbitrary: g)
  case Nil
  then show ?case by simp
next
  case (Cons b bs)
  then obtain g1 g2 where h1: "hit_enemies b (enemies g) g = Inr g1"
    and h2: "hit_boss b g1 = Inr g2" and h3: "bullets_loop bs g2 = Inr g'"
    by (auto simp add: py_simps)
  from hit_enemies_Inr [OF h1] obtain pbs ens sc cues
    where g1: "g1 = g\<lparr>player_bullets := pbs, enemies := ens, score := sc, played := cues\<rparr>"
    by blast
  with Cons.prems(1) have "g2 = g1"
    using hit_boss_unbound_Inr [OF _ h2] by simp
  with Cons.prems(1) Cons.IH [OF _ h3] g1 show ?case by simp
qed

lemma hit_enemies_no_hit:
  "\<forall>e\<in>set es. \<not> colliderect (fst b) e \<Longrightarrow> hit_enemies b es g = Inr g"
  by (induction es) auto

lemma hit_enemies_keeps_other:
  "hit_enemies b es g = Inr g' \<Longrightarrow> c \<noteq> b \<Longrightarrow> c \<in> set (player_bullets g) \<Longrightarrow>
     c \<in> set (player_bullets g')"
  by (induction es arbitrary: g) (auto simp add: py_simps py_remove_Inr split: if_splits)

text \<open>A bullet already removed from the live list raises on its next hit.\<close>

lemma hit_enemies_gone:
  "b \<notin> set (player_bullets g) \<Longrightarrow> \<exists>e\<in>set es. colliderect (fst b) e \<Longrightarrow>
     hit_enemies b es g = Inl ValueError"
  by (induction es) auto

lemma hit_enemies_second_hit:
  "player_bullets g = [b] \<Longrightarrow> Enemy_hit_sound \<in> set (sound_names g) \<Longrightarrow> set es \<subseteq> set (enemies g) \<Longrightarrow>
     2 \<le> length (filter (colliderect (fst b)) es) \<Longrightarrow> hit_enemies b es g = Inl ValueError"
proof (induction es)
  case Nil
  then show ?case by simp
next
  case (Cons e es)
  show ?case
  proof (cases "colliderect (fst b) e")
    case True
    with Cons.prems(4) have "0 < length (filter (colliderect (fst b)) es)"
      by (simp add: Suc_le_eq)
    then have "\<exists>e'\<in>set es. colliderect (fst b) e'"
      by (rule filter_nonempty_ex)
    with True Cons.prems show ?thesis
      by (simp add: hit_enemies_gone)
  next
    case False
    with Cons show ?thesis by simp
  qed
qed

text \<open>
  While \<^verbatim>\<open>boss_hit_sound\<close> is unbound, a bullet of the snapshot that
  touches the boss and no enemy makes the bullet pass fail: the bullets before
  it leave it in the live list, leave the boss alone and only remove enemies.
\<close>

lemma bullets_loop_boss_hit:
  "Boss_hit_sound \<notin> set (sound_names g) \<Longrightarrow> boss g = Some bo \<Longrightarrow> b \<in> set bs \<Longrightarrow>
     b \<in> set (player_bullets g) \<Longrightarrow> colliderect (fst b) bo \<Longrightarrow>
     \<forall>e\<in>set (enemies g). \<not> colliderect (fst b) e \<Longrightarrow> bullets_loop bs g \<noteq> Inr g'"
proof (induction bs arbitrary: g)
  case Nil
  then show ?case by simp
next
  case (Cons c bs)
  show ?case
  proof (cases "c = b")
    case True
    with Cons.prems show ?thesis
      by (simp add: hit_enemies_no_hit hit_boss_def)
  next
    case False
    show ?thesis
    proof
      assume "bullets_loop (c # bs) g = Inr g'"
      then obtain g1 g2 where h1: "hit_enemies c (enemies g) g = Inr g1"
        and h2: "hit_boss c g1 = Inr g2" and h3: "bullets_loop bs g2 = Inr g'"
        by (auto simp add: py_simps)
      from hit_enemies_Inr [OF h1] obtain pbs ens sc cues
        where g1: "g1 = g\<lparr>player_bullets := pbs, enemies := ens, score := sc, played := cues\<rparr>"
        and sub: "set (enemies g1) \<subseteq> set (enemies g)"
        by blast
      have g2: "g2 = g1"
        using Cons.prems(1) g1 hit_boss_unbound_Inr [OF _ h2] by simp
      have "b \<in> set (player_bullets g2)"
        using hit_enemies_keeps_other [OF h1] False Cons.prems(4) g2 by metis
      moreover have "b \<in> set bs" using Cons.prems(3) False by simp
      moreover have "\<forall>e\<in>set (enemies g2). \<not> colliderect (fst b) e"
        using Cons.prems(6) sub g2 by blast
      ultimately have "bullets_loop bs g2 \<noteq> Inr g'"
        using Cons.IH [of g2] Cons.prems(1,2,5) g1 g2 by simp
      with h3 show False by simp
    qed
  qed
qed

text \<open>What a completed collision pass keeps.\<close>

lemma check_collisions_frame:
  assumes "check_collisions g = Inr g'"
  shows "player g' = player g \<and> in_start_menu g' = in_start_menu g \<and> running g' = running g \<and>
    sound_names g' = sound_names g \<and> enemy_bullets g' = enemy_bullets g \<and>
    set (player_bullets g') \<subseteq> set (player_bullets g) \<and> set (enemies g') \<subseteq> set (enemies g) \<and>
    (boss g' = boss g \<or> boss g' = None) \<and> score g \<le> score g' \<and> (is_game_over g \<longrightarrow> is_game_over g')"
proof -
  from assms obtain g1 where l: "bullets_loop (player_bullets g) g = Inr g1" and p: "player_passes g1 = Inr g'"
    by (auto simp add: check_collisions_split py_simps)
  from player_passes_frame [OF p] obtain go cues where g': "g' = g1\<lparr>is_game_over := go, played := cues\<rparr>"
    by blast
  have go: "is_game_over g1 \<longrightarrow> is_game_over g'"
    using p by (auto simp add: player_passes_def py_simps dest!: player_struck_over boss_struck_over)
  from bullets_loop_Inr [OF l] have "collision_frame g g1" by simp
  with g' go show ?thesis by (auto simp add: collision_frame_def)
qed

text \<open>With no enemy bullets, enemies or boss there is nothing to collide with.\<close>

lemma bullets_loop_no_targets:
  "enemies g = [] \<Longrightarrow> boss g = None \<Longrightarrow> bullets_loop bs g = Inr g"
  by (induction bs) (simp_all add: hit_boss_def)

lemma check_collisions_empty:
  "enemy_bullets g = [] \<Longrightarrow> enemies g = [] \<Longrightarrow> boss g = None \<Longrightarrow> check_collisions g = Inr g"
  by (simp add: check_collisions_def boss_struck_def bullets_loop_no_targets)

text \<open>With \<^verbatim>\<open>boss_hit_sound\<close> unbound a completed pass leaves the boss alone.\<close>

lemma check_collisions_unbound_boss:
  assumes "Boss_hit_sound \<notin> set (sound_names g)" and "check_collisions g = Inr g'"
  shows "boss g' = boss g \<and> boss_health g' = boss_health g \<and> boss_stage g' = boss_stage g"
proof -
  from assms(2) obtain g1 where l: "bullets_loop (player_bullets g) g = Inr g1" and p: "player_passes g1 = Inr g'"
    by (auto simp add: check_collisions_split py_simps)
  from player_passes_frame [OF p] obtain go cues where g': "g' = g1\<lparr>is_game_over := go, played := cues\<rparr>"
    by blast
  from bullets_loop_unbound_boss [OF assms(1) l] g' show ?thesis by simp
qed

lemma check_collisions_score_dvd:
  assumes "10 dvd score g" and "check_collisions g = Inr g'"
  shows "10 dvd score g'"
proof -
  from assms(2) obtain g1 where l: "bullets_loop (player_bullets g) g = Inr g1" and p: "player_passes g1 = Inr g'"
    by (auto simp add: check_collisions_split py_simps)
  from player_passes_frame [OF p] obtain go cues where g': "g' = g1\<lparr>is_game_over := go, played := cues\<rparr>"
    by blast
  from bullets_loop_Inr [OF l] have
    eq: "score g1 = score g + 10 * int (length (enemies g)) - 10 * int (length (enemies g1)) + kill_bonus g g1"
    by simp
  have "10 dvd kill_bonus g g1" by (simp add: kill_bonus_def)
  with assms(1) eq g' show ?thesis by simp
qed

section \<open>Properties of the collision pass\<close>

text \<open>
  C3. Score accounting of \<^verbatim>\<open>check_collisions\<close>: every enemy that
  disappears is paid with exactly 10 points, and clearing the boss pays exactly
  100; nothing else changes the score.
\<close>

theorem check_collisions_score:
  assumes "check_collisions g = Inr g'"
  shows "score g' + 10 * int (length (enemies g')) =
           score g + 10 * int (length (enemies g)) + (if boss g \<noteq> None \<and> boss g' = None then 100 else 0)"
proof -
  from assms obtain g1 where l: "bullets_loop (player_bullets g) g = Inr g1" and p: "player_passes g1 = Inr g'"
    by (auto simp add: check_collisions_split py_simps)
  from player_passes_frame [OF p] obtain go cues where g': "g' = g1\<lparr>is_game_over := go, played := cues\<rparr>"
    by blast
  from bullets_loop_Inr [OF l] g' show ?thesis by (simp add: kill_bonus_def)
qed

theorem check_collisions_score_witness:
  "check_collisions (init_game\<lparr>in_start_menu := False, player_bullets := [(Rect 100 100 5 5, 0, -10)],
                                 enemies := [Rect 98 98 30 30]\<rparr>) =
     Inr (init_game\<lparr>in_start_menu := False, score := 10, played := [Enemy_hit_sound]\<rparr>) \<and>
   score (init_game\<lparr>in_start_menu := False, score := 10, played := [Enemy_hit_sound]\<rparr>) + 10 * int 0 =
     score (init_game\<lparr>in_start_menu := False, player_bullets := [(Rect 100 100 5 5, 0, -10)],
                       enemies := [Rect 98 98 30 30]\<rparr>) + 10 * int 1 + 0"
proof -
  let ?g = "init_game\<lparr>in_start_menu := False, player_bullets := [(Rect 100 100 5 5, 0, -10)],
                      enemies := [Rect 98 98 30 30]\<rparr>"
  let ?g' = "init_game\<lparr>in_start_menu := False, score := 10, played := [Enemy_hit_sound]\<rparr>"
  have run: "check_collisions ?g = Inr ?g'"
    by (simp add: check_collisions_def player_passes_def hit_boss_def boss_struck_def init_game_def
        loaded_sounds_def colliderect_def game_constants)
  from check_collisions_score [OF run] have "score ?g' + 10 * int (length (enemies ?g')) =
     score ?g + 10 * int (length (enemies ?g)) + (if boss ?g \<noteq> None \<and> boss ?g' = None then 100 else 0)" .
  with run show ?thesis by (simp add: init_game_def)
qed

text \<open>
  C4. \<^verbatim>\<open>boss_hit_sound\<close> is never loaded (lines 66--69 bind four sounds
  and not this one), so the boss-hit branch of lines 136--142 always raises
  \<open>NameError\<close>: a collision pass in which a live player bullet touches the
  boss and no enemy never completes.
\<close>

theorem check_collisions_boss_hit_fails:
  assumes "Boss_hit_sound \<notin> set (sound_names g)" and "boss g = Some bo"
    and "b \<in> set (player_bullets g)" and "colliderect (fst b) bo"
    and "\<forall>e\<in>set (enemies g). \<not> colliderect (fst b) e"
  shows "\<exists>err. check_collisions g = Inl err"
proof -
  have "bullets_loop (player_bullets g) g \<noteq> Inr g1" for g1
    using bullets_loop_boss_hit [OF assms(1,2,3,3,4,5)] .
  then show ?thesis
    by (cases "bullets_loop (player_bullets g) g") (auto simp add: check_collisions_split)
qed

theorem check_collisions_boss_hit_fails_witness:
  "Boss_hit_sound \<notin> set (sound_names (init_game\<lparr>in_start_menu := False, boss := Some (Rect 600 100 100 100),
      boss_stage := True, player_bullets := [(Rect 620 150 5 5, 0, -10)]\<rparr>)) \<and>
   (\<exists>err. check_collisions (init_game\<lparr>in_start_menu := False, boss := Some (Rect 600 100 100 100),
      boss_stage := True, player_bullets := [(Rect 620 150 5 5, 0, -10)]\<rparr>) = Inl err) \<and>
   check_collisions (init_game\<lparr>in_start_menu := False, boss := Some (Rect 600 100 100 100),
      boss_stage := True, player_bullets := [(Rect 620 150 5 5, 0, -10)]\<rparr>) = Inl (NameError ''boss_hit_sound'')"
proof -
  let ?g = "init_game\<lparr>in_start_menu := False, boss := Some (Rect 600 100 100 100),
      boss_stage := True, player_bullets := [(Rect 620 150 5 5, 0, -10)]\<rparr>"
  have h1: "Boss_hit_sound \<notin> set (sound_names ?g)"
    by (simp add: init_game_def loaded_sounds_def)
  have h2: "colliderect (fst (Rect 620 150 5 5, 0::int, -10::int)) (Rect 600 100 100 100)"
    by (simp add: colliderect_def)
  have "\<exists>err. check_collisions ?g = Inl err"
    by (rule check_collisions_boss_hit_fails [OF h1, of "Rect 600 100 100 100" "(Rect 620 150 5 5, 0, -10)"])
       (simp_all add: colliderect_def init_game_def)
  moreover have "check_collisions ?g = Inl (NameError ''boss_hit_sound'')"
    by (simp add: check_collisions_def hit_boss_def init_game_def loaded_sounds_def colliderect_def)
  ultimately show ?thesis using h1 by blast
qed

text \<open>
  C5. A player bullet that overlaps two enemies in the same pass is removed at
  the first hit and removed again at the second (lines 130--132 do not
  \<^verbatim>\<open>break\<close>): \<^verbatim>\<open>list.remove\<close> raises \<open>ValueError\<close>.
\<close>

theorem check_collisions_double_hit:
  assumes "player_bullets g = [b]" and "Enemy_hit_sound \<in> set (sound_names g)"
    and "2 \<le> length (filter (colliderect (fst b)) (enemies g))"
  shows "check_collisions g = Inl ValueError"
proof -
  have "hit_enemies b (enemies g) g = Inl ValueError"
    using hit_enemies_second_hit [OF assms(1,2) _ assms(3)] by simp
  with assms(1) show ?thesis by (simp add: check_collisions_def)
qed

theorem check_collisions_double_hit_witness:
  "player_bullets (init_game\<lparr>in_start_menu := False, player_bullets := [(Rect 100 100 5 5, 0, -10)],
      enemies := [Rect 98 98 30 30, Rect 90 90 30 30]\<rparr>) = [(Rect 100 100 5 5, 0, -10)] \<and>
   Enemy_hit_sound \<in> set (sound_names (init_game\<lparr>in_start_menu := False,
      player_bullets := [(Rect 100 100 5 5, 0, -10)], enemies := [Rect 98 98 30 30, Rect 90 90 30 30]\<rparr>)) \<and>
   2 \<le> length (filter (colliderect (fst (Rect 100 100 5 5, 0::int, -10::int))) [Rect 98 98 30 30, Rect 90 90 30 30]) \<and>
   check_collisions (init_game\<lparr>in_start_menu := False, player_bullets := [(Rect 100 100 5 5, 0, -10)],
      enemies := [Rect 98 98 30 30, Rect 90 90 30 30]\<rparr>) = Inl ValueError"
proof -
  let ?g = "init_game\<lparr>in_start_menu := False, player_bullets := [(Rect 100 100 5 5, 0, -10)],
      enemies := [Rect 98 98 30 30, Rect 90 90 30 30]\<rparr>"
  have h1: "player_bullets ?g = [(Rect 100 100 5 5, 0, -10)]" by simp
  have h2: "Enemy_hit_sound \<in> set (sound_names ?g)" by (simp add: init_game_def loaded_sounds_def)
  have h3: "2 \<le> length (filter (colliderect (fst (Rect 100 100 5 5, 0::int, -10::int))) [Rect 98 98 30 30, Rect 90 90 30 30])"
    by (simp add: colliderect_def)
  have "check_collisions ?g = Inl ValueError"
    by (rule check_collisions_double_hit [OF h1 h2]) (simp add: colliderect_def)
  with h1 h2 h3 show ?thesis by simp
qed

text \<open>
  C6. After a completed collision pass the game is over exactly when it was
  already, or an enemy bullet, a surviving enemy or the surviving boss touches
  the player.
\<close>

theorem check_collisions_game_over:
  assumes "Game_over_sound \<in> set (sound_names g)" and "check_collisions g = Inr g'"
  shows "is_game_over g' \<longleftrightarrow> is_game_over g \<or> (\<exists>b\<in>set (enemy_bullets g). colliderect b (player g)) \<or>
           (\<exists>e\<in>set (enemies g'). colliderect (player g) e) \<or>
           (\<exists>bo. boss g' = Some bo \<and> colliderect (player g) bo)"
proof -
  from assms(2) obtain g1 where l: "bullets_loop (player_bullets g) g = Inr g1" and p: "player_passes g1 = Inr g'"
    by (auto simp add: check_collisions_split py_simps)
  from bullets_loop_Inr [OF l] have fr: "collision_frame g g1" by simp
  from player_passes_frame [OF p] obtain go cues where g': "g' = g1\<lparr>is_game_over := go, played := cues\<rparr>"
    by blast
  have "Game_over_sound \<in> set (sound_names g1)" using fr assms(1) by (simp add: collision_frame_def)
  from player_passes_eq [OF this p] fr g' show ?thesis by (simp add: collision_frame_def)
qed

theorem check_collisions_game_over_witness:
  "Game_over_sound \<in> set (sound_names (init_game\<lparr>in_start_menu := False, enemies := [Rect 690 700 30 30]\<rparr>)) \<and>
   check_collisions (init_game\<lparr>in_start_menu := False, enemies := [Rect 690 700 30 30]\<rparr>) =
     Inr (init_game\<lparr>in_start_menu := False, enemies := [Rect 690 700 30 30], is_game_over := True,
                     played := [Game_over_sound]\<rparr>) \<and>
   is_game_over (init_game\<lparr>in_start_menu := False, enemies := [Rect 690 700 30 30], is_game_over := True,
                     played := [Game_over_sound]\<rparr>)"
proof -
  let ?g = "init_game\<lparr>in_start_menu := False, enemies := [Rect 690 700 30 30]\<rparr>"
  let ?g' = "init_game\<lparr>in_start_menu := False, enemies := [Rect 690 700 30 30], is_game_over := True,
                     played := [Game_over_sound]\<rparr>"
  have h1: "Game_over_sound \<in> set (sound_names ?g)" by (simp add: init_game_def loaded_sounds_def)
  have h2: "check_collisions ?g = Inr ?g'"
    by (simp add: check_collisions_def boss_struck_def init_game_def loaded_sounds_def colliderect_def game_constants)
  from check_collisions_game_over [OF h1 h2] h1 h2 show ?thesis
    by (simp add: init_game_def colliderect_def game_constants)
qed

end
