(* ===== verification/Spawner.thy ===== *)
theory Spawner
  imports Game_State
begin

text \<open>
  The spawner of \<^verbatim>\<open>src/game.py\<close>: \<^verbatim>\<open>spawn_enemy\<close>,
  \<^verbatim>\<open>enemy_fire\<close>, \<^verbatim>\<open>spawn_boss\<close> (lines 160--174) and the branch of the
  event loop that runs them on the periodic \<^verbatim>\<open>enemy_event\<close> (lines 235--240).
\<close>

section \<open>Random positions\<close>

text \<open>
  \<^verbatim>\<open>random.randint(a, b)\<close> returns some integer of \<open>[a, b]\<close>. The draw is an
  input of the model: the environment supplies an integer \<open>r\<close> and the result is
  \<open>a + r mod (b - a + 1)\<close>, which lies in the range and reaches every value of it.
\<close>

definition randint :: "int \<Rightarrow> int \<Rightarrow> int \<Rightarrow> int" where
  "randint a b r = a + r mod (b - a + 1)"

lemma randint_range: "a \<le> b \<Longrightarrow> a \<le> randint a b r \<and> randint a b r \<le> b"
proof -
  assume "a \<le> b"
  then have pos: "0 < b - a + 1" by simp
  have "0 \<le> r mod (b - a + 1)" using pos by (rule pos_mod_sign)
  moreover have "r mod (b - a + 1) < b - a + 1" using pos by (rule pos_mod_bound)
  ultimately have "0 \<le> r mod (b - a + 1) \<and> r mod (b - a + 1) < b - a + 1" by blast
  then show ?thesis by (simp add: randint_def)
qed

lemma randint_onto: "a \<le> v \<Longrightarrow> v \<le> b \<Longrightarrow> randint a b (v - a) = v"
  by (simp add: randint_def)

section \<open>Spawning\<close>

text \<open>Lines 160--162: a new enemy at a random column of the top edge.\<close>

definition spawn_enemy :: "int \<Rightarrow> game \<Rightarrow> game" where
  "spawn_enemy r g =
     (let x_pos = randint 0 (WIDTH - ENEMY_SIZE) r
      in g\<lparr>enemies := enemies g @ [Rect x_pos 0 ENEMY_SIZE ENEMY_SIZE]\<rparr>)"

text \<open>Lines 164--167: every live enemy fires one bullet from below its middle.\<close>

definition enemy_bullet_of :: "rect \<Rightarrow> rect" where
  "enemy_bullet_of enemy = Rect (rx enemy + ENEMY_SIZE div 2) (ry enemy + ENEMY_SIZE) BULLET_SIZE BULLET_SIZE"

definition enemy_fire :: "game \<Rightarrow> game" where
  "enemy_fire g = g\<lparr>enemy_bullets := enemy_bullets g @ map enemy_bullet_of (enemies g)\<rparr>"

text \<open>Lines 169--174: the boss above the field, the boss stage on, the intro cue.\<close>

definition spawn_boss :: "int \<Rightarrow> game \<Rightarrow> game py_result" where
  "spawn_boss r g =
     (let x_pos = randint 0 (WIDTH - BOSS_SIZE) r
      in play Boss_intro_sound (g\<lparr>boss := Some (Rect x_pos (-100) BOSS_SIZE BOSS_SIZE), boss_stage := True\<rparr>))"

text \<open>
  Lines 235--240. At most one of the two branches runs, since \<^verbatim>\<open>spawn_enemy\<close>
  and \<^verbatim>\<open>enemy_fire\<close> leave the score alone; so one draw \<open>r\<close> per event serves
  whichever \<^verbatim>\<open>randint\<close> is called.
\<close>

definition enemy_timer :: "int \<Rightarrow> game \<Rightarrow> game py_result" where
  "enemy_timer r g =
     (if \<not> in_start_menu g \<and> \<not> is_game_over g then
        (let g1 = (if \<not> boss_stage g \<and> score g < 500 then enemy_fire (spawn_enemy r g) else g)
         in if 500 \<le> score g1 \<and> boss g1 = None then spawn_boss r g1 else Inr g1)
      else Inr g)"

section \<open>Properties of the spawner\<close>

text \<open>
  C7. While the boss is on the field (the boss stage is set and the boss exists)
  a timer event changes nothing: no enemy spawns, no enemy fires, no second boss
  appears.
\<close>

theorem enemy_timer_boss_blocks:
  "boss_stage g \<Longrightarrow> boss g \<noteq> None \<Longrightarrow> enemy_timer r g = Inr g"
  by (auto simp add: enemy_timer_def)

theorem enemy_timer_boss_blocks_witness:
  "boss_stage (init_game\<lparr>in_start_menu := False, boss_stage := True, boss := Some (Rect 0 0 100 100)\<rparr>) \<and>
   boss (init_game\<lparr>in_start_menu := False, boss_stage := True, boss := Some (Rect 0 0 100 100)\<rparr>) \<noteq> None \<and>
   enemy_timer 3 (init_game\<lparr>in_start_menu := False, boss_stage := True, boss := Some (Rect 0 0 100 100)\<rparr>) =
     Inr (init_game\<lparr>in_start_menu := False, boss_stage := True, boss := Some (Rect 0 0 100 100)\<rparr>)"
  using enemy_timer_boss_blocks [of "init_game\<lparr>in_start_menu := False, boss_stage := True, boss := Some (Rect 0 0 100 100)\<rparr>" 3]
  by simp

text \<open>
  C8. Outside the boss stage and below 500 points, a timer event during play adds
  one enemy at the top edge in a column of \<open>[0, WIDTH - ENEMY_SIZE]\<close>, and then
  every enemy, the new one included, fires one bullet: the number of enemy
  bullets grows by the number of enemies.
\<close>

theorem enemy_timer_spawns_enemy:
  assumes "\<not> in_start_menu g" and "\<not> is_game_over g" and "\<not> boss_stage g" and "score g < 500"
  shows "\<exists>x. 0 \<le> x \<and> x \<le> WIDTH - ENEMY_SIZE \<and>
           enemy_timer r g = Inr (g\<lparr>enemies := enemies g @ [Rect x 0 ENEMY_SIZE ENEMY_SIZE],
             enemy_bullets := enemy_bullets g @ map enemy_bullet_of (enemies g @ [Rect x 0 ENEMY_SIZE ENEMY_SIZE])\<rparr>)"
proof -
  let ?x = "randint 0 (WIDTH - ENEMY_SIZE) r"
  have "0 \<le> ?x \<and> ?x \<le> WIDTH - ENEMY_SIZE"
    by (rule randint_range) (simp add: game_constants)
  moreover have "enemy_timer r g = Inr (g\<lparr>enemies := enemies g @ [Rect ?x 0 ENEMY_SIZE ENEMY_SIZE],
             enemy_bullets := enemy_bullets g @ map enemy_bullet_of (enemies g @ [Rect ?x 0 ENEMY_SIZE ENEMY_SIZE])\<rparr>)"
    using assms by (simp add: enemy_timer_def spawn_enemy_def enemy_fire_def Let_def)
  ultimately show ?thesis by blast
qed

theorem enemy_timer_spawns_enemy_witness:
  "\<not> in_start_menu (init_game\<lparr>in_start_menu := False\<rparr>) \<and> \<not> is_game_over (init_game\<lparr>in_start_menu := False\<rparr>) \<and>
   \<not> boss_stage (init_game\<lparr>in_start_menu := False\<rparr>) \<and> score (init_game\<lparr>in_start_menu := False\<rparr>) < 500 \<and>
   (\<exists>x. 0 \<le> x \<and> x \<le> WIDTH - ENEMY_SIZE \<and>
      enemy_timer 7 (init_game\<lparr>in_start_menu := False\<rparr>) =
        Inr (init_game\<lparr>in_start_menu := False, enemies := [Rect x 0 ENEMY_SIZE ENEMY_SIZE],
                        enemy_bullets := [enemy_bullet_of (Rect x 0 ENEMY_SIZE ENEMY_SIZE)]\<rparr>))"
proof -
  let ?g = "init_game\<lparr>in_start_menu := False\<rparr>"
  have h: "\<not> in_start_menu ?g" "\<not> is_game_over ?g" "\<not> boss_stage ?g" "score ?g < 500"
    by (simp_all add: init_game_def)
  from enemy_timer_spawns_enemy [OF h, of 7] h show ?thesis
    by (simp add: init_game_def)
qed

text \<open>
  C9. From 500 points on, a timer event during play with no boss on the field
  spawns the boss above the top edge (\<open>y = -100\<close>) in a column of
  \<open>[0, WIDTH - BOSS_SIZE]\<close>, turns the boss stage on and plays the intro cue;
  it spawns no enemy.
\<close>

theorem enemy_timer_spawns_boss:
  assumes "\<not> in_start_menu g" and "\<not> is_game_over g" and "500 \<le> score g" and "boss g = None"
    and "Boss_intro_sound \<in> set (sound_names g)"
  shows "\<exists>x. 0 \<le> x \<and> x \<le> WIDTH - BOSS_SIZE \<and>
           enemy_timer r g = Inr (g\<lparr>boss := Some (Rect x (-100) BOSS_SIZE BOSS_SIZE), boss_stage := True,
                                   played := played g @ [Boss_intro_sound]\<rparr>)"
proof -
  let ?x = "randint 0 (WIDTH - BOSS_SIZE) r"
  have "0 \<le> ?x \<and> ?x \<le> WIDTH - BOSS_SIZE"
    by (rule randint_range) (simp add: game_constants)
  moreover have "enemy_timer r g = Inr (g\<lparr>boss := Some (Rect ?x (-100) BOSS_SIZE BOSS_SIZE), boss_stage := True,
                                   played := played g @ [Boss_intro_sound]\<rparr>)"
    using assms by (simp add: enemy_timer_def spawn_boss_def Let_def)
  ultimately show ?thesis by blast
qed

theorem enemy_timer_spawns_boss_witness:
  "\<not> in_start_menu (init_game\<lparr>in_start_menu := False, score := 500\<rparr>) \<and>
   \<not> is_game_over (init_game\<lparr>in_start_menu := False, score := 500\<rparr>) \<and>
   500 \<le> score (init_game\<lparr>in_start_menu := False, score := 500\<rparr>) \<and>
   boss (init_game\<lparr>in_start_menu := False, score := 500\<rparr>) = None \<and>
   Boss_intro_sound \<in> set (sound_names (init_game\<lparr>in_start_menu := False, score := 500\<rparr>)) \<and>
   (\<exists>x. 0 \<le> x \<and> x \<le> WIDTH - BOSS_SIZE \<and>
      enemy_timer 42 (init_game\<lparr>in_start_menu := False, score := 500\<rparr>) =
        Inr (init_game\<lparr>in_start_menu := False, score := 500, boss := Some (Rect x (-100) BOSS_SIZE BOSS_SIZE),
                        boss_stage := True, played := [Boss_intro_sound]\<rparr>))"
proof -
  let ?g = "init_game\<lparr>in_start_menu := False, score := 500\<rparr>"
  have h: "\<not> in_start_menu ?g" "\<not> is_game_over ?g" "500 \<le> score ?g" "boss ?g = None"
      "Boss_intro_sound \<in> set (sound_names ?g)"
    by (simp_all add: init_game_def loaded_sounds_def)
  from enemy_timer_spawns_boss [OF h, of 42] h show ?thesis
    by (simp add: init_game_def)
qed

end
