(* ===== verification/Game_Loop.thy ===== *)
theory Game_Loop
  imports Motion Collision Spawner
begin

text \<open>
  The main loop of \<^verbatim>\<open>src/game.py\<close> (lines 199--250) and
  \<^verbatim>\<open>restart_game\<close> (lines 188--197): one frame is the simulation step in
  play mode, then every queued event, then the held arrow keys. Drawing is left
  out; it changes no state. A run is a list of frames, each with its event
  queue and its held keys, stopping when \<^verbatim>\<open>running\<close> is false. The
  modes of the specification form a labelled transition function, and every
  frame is shown to follow it.
\<close>

section \<open>Input\<close>

text \<open>The keys the code distinguishes, and the event types it handles.\<close>

datatype key = K_SPACE | K_r | K_LEFT | K_RIGHT | K_other

datatype event = QUIT | KEYDOWN key | ENEMY_EVENT int | OTHER_EVENT

section \<open>Operations\<close>

definition restart_game :: "game \<Rightarrow> game" where
  "restart_game g =
     g\<lparr>player := (player g)\<lparr>rx := WIDTH div 2, ry := HEIGHT - PLAYER_SIZE - 10\<rparr>,
       player_bullets := [], enemy_bullets := [], enemies := [], boss := None, score := 0,
       is_game_over := False, in_start_menu := False\<rparr>"

text \<open>
  Lines 229--231: a bullet from the player's top, near its middle, going straight
  up. \<^verbatim>\<open>pygame.Rect(...)\<close> raises \<open>TypeError\<close> when a coordinate does
  not fit a C \<open>int\<close>.
\<close>

definition fire_bullet :: "game \<Rightarrow> game py_result" where
  "fire_bullet g =
     bindE (new_rect (rx (player g) + PLAYER_SIZE div 2 - BULLET_SIZE div 2) (ry (player g))
              BULLET_SIZE BULLET_SIZE)
       (\<lambda>bullet. play Bullet_sound (g\<lparr>player_bullets := player_bullets g @ [(bullet, 0, -10)]\<rparr>))"

text \<open>
  Lines 221--240: one event. The two key tests of lines 224 and 232 are separate
  \<^verbatim>\<open>if\<close>s; the second reads the flags after the first has run.
\<close>

fun handle_event :: "event \<Rightarrow> game \<Rightarrow> game py_result" where
  "handle_event QUIT g = Inr (g\<lparr>running := False\<rparr>)"
| "handle_event (KEYDOWN k) g =
     bindE (if k = K_SPACE then
              (if in_start_menu g then Inr (restart_game g)
               else if \<not> is_game_over g then fire_bullet g else Inr g)
            else Inr g)
       (\<lambda>g1. Inr (if k = K_r \<and> is_game_over g1 then g1\<lparr>in_start_menu := True\<rparr> else g1))"
| "handle_event (ENEMY_EVENT r) g = enemy_timer r g"
| "handle_event OTHER_EVENT g = Inr g"

fun handle_events :: "event list \<Rightarrow> game \<Rightarrow> game py_result" where
  "handle_events [] g = Inr g"
| "handle_events (e # es) g = bindE (handle_event e g) (handle_events es)"

text \<open>
  Lines 242--247: held arrow keys move the player during play. Nothing clamps the
  position; each \<^verbatim>\<open>player.x\<close> assignment is checked against the C \<open>int\<close>
  range.
\<close>

definition move_player :: "key list \<Rightarrow> game \<Rightarrow> game py_result" where
  "move_player keys g =
     (if \<not> in_start_menu g \<and> \<not> is_game_over g then
        bindE (if K_RIGHT \<in> set keys then set_rx (rx (player g) + player_speed) (player g) else Inr (player g))
          (\<lambda>p1. bindE (if K_LEFT \<in> set keys then set_rx (rx p1 - player_speed) p1 else Inr p1)
          (\<lambda>p2. Inr (g\<lparr>player := p2\<rparr>)))
      else Inr g)"

text \<open>Lines 215--218: the simulation step of play mode.\<close>

definition simulate :: "game \<Rightarrow> game py_result" where
  "simulate g = bindE (move_bullets g) (\<lambda>g1. bindE (move_enemies g1) (\<lambda>g2. check_collisions (move_boss g2)))"

text \<open>Lines 202--250: one iteration of \<^verbatim>\<open>while running\<close>.\<close>

definition frame :: "event list \<Rightarrow> key list \<Rightarrow> game \<Rightarrow> game py_result" where
  "frame evs keys g =
     bindE (if in_start_menu g then Inr g else if is_game_over g then Inr g else simulate g)
       (\<lambda>g1. bindE (handle_events evs g1) (move_player keys))"

fun run :: "(event list \<times> key list) list \<Rightarrow> game \<Rightarrow> game py_result" where
  "run [] g = Inr g"
| "run ((evs, keys) # fs) g = (if running g then bindE (frame evs keys g) (run fs) else Inr g)"

section \<open>Reachable states\<close>

text \<open>The states the loop can be in at the top of an iteration, for any inputs.\<close>

inductive reachable :: "game \<Rightarrow> bool" where
  init: "reachable init_game"
| step: "reachable g \<Longrightarrow> running g \<Longrightarrow> frame evs keys g = Inr g' \<Longrightarrow> reachable g'"

section \<open>The mode machine of the specification\<close>

text \<open>
  The three modes and their labelled transitions as the specification draws them
  (section 4.4): Start to Playing on a confirm action, Playing to GameOver only
  when the collision system strikes the player, GameOver to Start on the restart
  action. A trigger that has no transition from the current mode leaves it. The
  triggers of an event are those it carries: \<open>SPACE\<close> confirms, \<open>r\<close> restarts.
\<close>

datatype trigger = Confirm | Struck | Restart

fun spec_mode :: "mode \<Rightarrow> trigger \<Rightarrow> mode" where
  "spec_mode Start Confirm = Playing"
| "spec_mode Playing Struck = GameOver"
| "spec_mode GameOver Restart = Start"
| "spec_mode m t = m"

fun event_triggers :: "event \<Rightarrow> trigger list" where
  "event_triggers (KEYDOWN K_SPACE) = [Confirm]"
| "event_triggers (KEYDOWN K_r) = [Restart]"
| "event_triggers e = []"

section \<open>Two families of states\<close>

text \<open>
  A play state left with nothing to spawn: the boss stage flag is still set but no
  boss exists, the field is empty and the score is 0. \<^verbatim>\<open>restart_game\<close>
  produces it from any state whose boss stage is set.
\<close>

definition stuck :: "game \<Rightarrow> bool" where
  "stuck g \<longleftrightarrow> boss_stage g \<and> boss g = None \<and> enemies g = [] \<and> enemy_bullets g = [] \<and>
     score g = 0 \<and> \<not> is_game_over g"


section \<open>What each part of a frame keeps\<close>

lemma move_boss_keeps [simp]:
  "player (move_boss g) = player g" "in_start_menu (move_boss g) = in_start_menu g"
  "is_game_over (move_boss g) = is_game_over g" "running (move_boss g) = running g"
  "sound_names (move_boss g) = sound_names g" "score (move_boss g) = score g"
  "enemies (move_boss g) = enemies g" "enemy_bullets (move_boss g) = enemy_bullets g"
  "player_bullets (move_boss g) = player_bullets g" "played (move_boss g) = played g"
  by (simp_all add: move_boss_def reset_boss_def Let_def split: option.splits)

lemma simulate_eq:
  "simulate g = check_collisions (move_boss (g\<lparr>
      player_bullets := filter (\<lambda>b. \<not> pbullet_gone b) (map move_pbullet (player_bullets g)),
      enemy_bullets := filter (\<lambda>r. \<not> below_field r) (map ebullet_step (enemy_bullets g)),
      enemies := filter (\<lambda>r. \<not> below_field r) (map enemy_step (enemies g))\<rparr>))"
  by (simp add: simulate_def move_bullets_def move_enemies_def move_all_eq_filter_map)

lemma simulate_frame:
  assumes "simulate g = Inr g'"
  shows "player g' = player g \<and> in_start_menu g' = in_start_menu g \<and> running g' = running g \<and>
    sound_names g' = sound_names g \<and> score g \<le> score g' \<and> (is_game_over g \<longrightarrow> is_game_over g')"
  using check_collisions_frame [OF assms [unfolded simulate_eq]] by simp

lemma enemy_timer_keeps:
  assumes "enemy_timer r g = Inr g'"
  shows "player g' = player g \<and> in_start_menu g' = in_start_menu g \<and> is_game_over g' = is_game_over g \<and>
    running g' = running g \<and> sound_names g' = sound_names g \<and> score g' = score g \<and>
    player_bullets g' = player_bullets g \<and> boss_health g' = boss_health g"
  using assms
  by (auto simp add: enemy_timer_def spawn_enemy_def enemy_fire_def spawn_boss_def py_simps Let_def
      split: if_splits)

lemma fire_bullet_Inr [py_simps]:
  "fire_bullet g = Inr g' \<longleftrightarrow> in_c_int (rx (player g) + 23) \<and> in_c_int (ry (player g)) \<and>
     Bullet_sound \<in> set (sound_names g) \<and>
     g' = g\<lparr>player_bullets := player_bullets g @ [(Rect (rx (player g) + 23) (ry (player g)) 5 5, 0, -10)],
            played := played g @ [Bullet_sound]\<rparr>"
  by (auto simp add: fire_bullet_def new_rect_eq in_c_int_iff game_constants py_simps)

lemma move_player_Inr:
  assumes "move_player keys g = Inr g'"
  shows "\<exists>x. g' = g\<lparr>player := (player g)\<lparr>rx := x\<rparr>\<rparr>"
proof -
  from assms have "g' = g\<lparr>player := (player g)\<lparr>rx := rx (player g')\<rparr>\<rparr>"
    by (auto simp add: move_player_def set_rx_eq py_simps split: if_splits)
  then show ?thesis by blast
qed

lemma move_player_rx:
  "move_player keys g = Inr g' \<Longrightarrow> rx (player g') = rx (player g) \<or> in_c_int (rx (player g'))"
  by (auto simp add: move_player_def set_rx_eq py_simps split: if_splits)

lemma move_player_err: "move_player keys g = Inl e \<Longrightarrow> e = TypeError"
  by (auto simp add: move_player_def set_rx_eq bindE_eq_Inl split: if_splits)

lemma move_player_no_arrows [simp]:
  "K_LEFT \<notin> set keys \<Longrightarrow> K_RIGHT \<notin> set keys \<Longrightarrow> move_player keys g = Inr g"
  by (simp add: move_player_def)

lemma move_player_mode: "move_player keys g = Inr g' \<Longrightarrow> mode g' = mode g"
  by (auto simp add: mode_def dest: move_player_Inr)

lemma handle_event_mode:
  "handle_event e g = Inr g' \<Longrightarrow> mode g' = foldl spec_mode (mode g) (event_triggers e)"
proof (cases e)
  case (KEYDOWN k)
  assume h: "handle_event e g = Inr g'"
  with KEYDOWN show ?thesis
    by (cases k) (auto simp add: mode_def restart_game_def py_simps split: if_splits)
next
  case (ENEMY_EVENT r)
  assume "handle_event e g = Inr g'"
  with ENEMY_EVENT have "enemy_timer r g = Inr g'" by simp
  from enemy_timer_keeps [OF this] ENEMY_EVENT show ?thesis by (simp add: mode_def)
qed (auto simp add: mode_def)

lemma handle_events_mode:
  "handle_events evs g = Inr g' \<Longrightarrow> mode g' = foldl spec_mode (mode g) (concat (map event_triggers evs))"
proof (induction evs arbitrary: g)
  case Nil
  then show ?case by simp
next
  case (Cons e es)
  then obtain g1 where h1: "handle_event e g = Inr g1" and h2: "handle_events es g1 = Inr g'"
    by (auto simp add: py_simps)
  from handle_event_mode [OF h1] Cons.IH [OF h2] show ?case by simp
qed

lemma simulate_mode:
  "mode g = Playing \<Longrightarrow> simulate g = Inr g' \<Longrightarrow> mode g' = Playing \<or> mode g' = spec_mode Playing Struck"
  by (drule simulate_frame) (auto simp add: mode_def split: if_splits)

section \<open>Properties of the loop\<close>

text \<open>
  C10. The flags \<^verbatim>\<open>in_start_menu\<close> and \<^verbatim>\<open>is_game_over\<close> refine the
  specification's labelled mode machine: the mode after a frame is the mode the
  machine reaches from the mode before it by reading the triggers of the frame's
  events in queue order (SPACE confirms, r restarts). The only other trigger is
  the collision system striking the player, and it can only come first, in the
  simulation step. So a frame never leaves GameOver without an r press and never
  leaves Start without a SPACE press.
\<close>

theorem frame_refines_modes:
  "frame evs keys g = Inr g' \<Longrightarrow>
     mode g' = foldl spec_mode (mode g) (concat (map event_triggers evs)) \<or>
     mode g' = foldl spec_mode (mode g) (Struck # concat (map event_triggers evs))"
proof -
  assume h: "frame evs keys g = Inr g'"
  then obtain g1 g2 where s: "(if in_start_menu g then Inr g else if is_game_over g then Inr g else simulate g) = Inr g1"
    and e: "handle_events evs g1 = Inr g2" and m: "move_player keys g2 = Inr g'"
    by (auto simp add: frame_def py_simps)
  have "mode g1 = mode g \<or> mode g1 = spec_mode (mode g) Struck"
    using s simulate_mode [of g g1] by (auto simp add: mode_def split: if_splits)
  with handle_events_mode [OF e] move_player_mode [OF m] show ?thesis by auto
qed

theorem frame_refines_modes_witness:
  "frame [KEYDOWN K_r, KEYDOWN K_SPACE] [] (init_game\<lparr>in_start_menu := False, is_game_over := True\<rparr>) =
     Inr (restart_game (init_game\<lparr>in_start_menu := True, is_game_over := True\<rparr>)) \<and>
   (mode (restart_game (init_game\<lparr>in_start_menu := True, is_game_over := True\<rparr>)) =
      foldl spec_mode (mode (init_game\<lparr>in_start_menu := False, is_game_over := True\<rparr>))
        (concat (map event_triggers [KEYDOWN K_r, KEYDOWN K_SPACE])) \<or>
    mode (restart_game (init_game\<lparr>in_start_menu := True, is_game_over := True\<rparr>)) =
      foldl spec_mode (mode (init_game\<lparr>in_start_menu := False, is_game_over := True\<rparr>))
        (Struck # concat (map event_triggers [KEYDOWN K_r, KEYDOWN K_SPACE]))) \<and>
   mode (init_game\<lparr>in_start_menu := False, is_game_over := True\<rparr>) = GameOver \<and>
   mode (restart_game (init_game\<lparr>in_start_menu := True, is_game_over := True\<rparr>)) = Playing"
proof -
  have h: "frame [KEYDOWN K_r, KEYDOWN K_SPACE] [] (init_game\<lparr>in_start_menu := False, is_game_over := True\<rparr>) =
     Inr (restart_game (init_game\<lparr>in_start_menu := True, is_game_over := True\<rparr>))"
    by (simp add: frame_def restart_game_def init_game_def)
  from frame_refines_modes [OF h] h show ?thesis
    by (simp add: mode_def restart_game_def init_game_def)
qed

text \<open>
  C11. Game over is terminal until the restart key: in the GameOver mode a frame
  whose events contain no \<^verbatim>\<open>K_r\<close> press changes nothing but the
  \<^verbatim>\<open>running\<close> flag (cleared by a quit event), and it never raises.
\<close>

theorem game_over_frame_stable:
  assumes "mode g = GameOver" and "KEYDOWN K_r \<notin> set evs"
  shows "frame evs keys g = Inr (g\<lparr>running := running g \<and> QUIT \<notin> set evs\<rparr>)"
proof -
  have "handle_events evs g = Inr (g\<lparr>running := running g \<and> QUIT \<notin> set evs\<rparr>)"
    if "is_game_over g" "\<not> in_start_menu g" "KEYDOWN K_r \<notin> set evs" for g evs
    using that
  proof (induction evs arbitrary: g)
    case Nil
    then show ?case by simp
  next
    case (Cons e es)
    then show ?case by (cases e) (auto simp add: enemy_timer_def)
  qed
  with assms show ?thesis
    by (simp add: frame_def mode_def move_player_def split: if_splits)
qed

theorem game_over_frame_stable_witness:
  "mode (init_game\<lparr>in_start_menu := False, is_game_over := True, score := 40\<rparr>) = GameOver \<and>
   KEYDOWN K_r \<notin> set [KEYDOWN K_SPACE, ENEMY_EVENT 5, QUIT] \<and>
   frame [KEYDOWN K_SPACE, ENEMY_EVENT 5, QUIT] [K_LEFT]
     (init_game\<lparr>in_start_menu := False, is_game_over := True, score := 40\<rparr>) =
     Inr (init_game\<lparr>in_start_menu := False, is_game_over := True, score := 40, running := False\<rparr>)"
proof -
  let ?g = "init_game\<lparr>in_start_menu := False, is_game_over := True, score := 40\<rparr>"
  have h1: "mode ?g = GameOver" by (simp add: mode_def)
  have h2: "KEYDOWN K_r \<notin> set [KEYDOWN K_SPACE, ENEMY_EVENT 5, QUIT]" by simp
  from game_over_frame_stable [OF h1 h2, of "[K_LEFT]"] h1 show ?thesis
    by (simp add: init_game_def)
qed

text \<open>
  C12. Pressing space during play fires: one bullet is appended at the player's
  top edge, 23 pixels right of its left edge, with direction \<open>(0, -10)\<close>, and
  the shot cue is played; nothing else changes. When that position does not fit a
  C \<open>int\<close> (the player walked to the end of the range), building the bullet's
  rectangle raises \<open>TypeError\<close> instead.
\<close>

theorem space_fires_bullet:
  assumes "mode g = Playing" and "Bullet_sound \<in> set (sound_names g)"
  shows "handle_event (KEYDOWN K_SPACE) g =
    (if in_c_int (rx (player g) + 23) \<and> in_c_int (ry (player g)) then
       Inr (g\<lparr>player_bullets := player_bullets g @ [(Rect (rx (player g) + 23) (ry (player g)) 5 5, 0, -10)],
              played := played g @ [Bullet_sound]\<rparr>)
     else Inl TypeError)"
  using assms by (simp add: mode_def fire_bullet_def new_rect_eq in_c_int_iff game_constants split: if_splits)

theorem space_fires_bullet_witness:
  "mode (restart_game init_game) = Playing \<and> Bullet_sound \<in> set (sound_names (restart_game init_game)) \<and>
   handle_event (KEYDOWN K_SPACE) (restart_game init_game) =
     (if in_c_int (rx (player (restart_game init_game)) + 23) \<and> in_c_int (ry (player (restart_game init_game)))
      then Inr ((restart_game init_game)\<lparr>player_bullets := [(Rect 706 708 5 5, 0, -10)], played := [Bullet_sound]\<rparr>)
      else Inl TypeError) \<and>
   handle_event (KEYDOWN K_SPACE) (restart_game init_game) =
     Inr ((restart_game init_game)\<lparr>player_bullets := [(Rect 706 708 5 5, 0, -10)], played := [Bullet_sound]\<rparr>)"
proof -
  have h1: "mode (restart_game init_game) = Playing"
    by (simp add: mode_def restart_game_def init_game_def)
  have h2: "Bullet_sound \<in> set (sound_names (restart_game init_game))"
    by (simp add: restart_game_def init_game_def loaded_sounds_def)
  from space_fires_bullet [OF h1 h2] h1 h2 show ?thesis
    by (simp add: restart_game_def init_game_def game_constants in_c_int_iff)
qed

section \<open>The stuck states\<close>

lemma move_boss_None [simp]: "boss g = None \<Longrightarrow> move_boss g = g"
  by (simp add: move_boss_def)

lemma simulate_no_targets:
  "enemy_bullets g = [] \<Longrightarrow> enemies g = [] \<Longrightarrow> boss g = None \<Longrightarrow>
     simulate g = Inr (g\<lparr>player_bullets := filter (\<lambda>b. \<not> pbullet_gone b) (map move_pbullet (player_bullets g))\<rparr>)"
  by (simp add: simulate_eq check_collisions_empty)

lemma handle_event_stuck:
  assumes "stuck g" and "handle_event e g = Inr g'"
  shows "stuck g'"
proof (cases e)
  case (ENEMY_EVENT r)
  with assms show ?thesis by (auto simp add: stuck_def enemy_timer_def Let_def split: if_splits)
next
  case (KEYDOWN k)
  with assms show ?thesis
    by (auto simp add: stuck_def restart_game_def py_simps split: if_splits)
qed (use assms in \<open>auto simp add: stuck_def\<close>)

lemma handle_events_stuck:
  "stuck g \<Longrightarrow> handle_events evs g = Inr g' \<Longrightarrow> stuck g'"
proof (induction evs arbitrary: g)
  case Nil
  then show ?case by simp
next
  case (Cons e es)
  then obtain g1 where h1: "handle_event e g = Inr g1" and h2: "handle_events es g1 = Inr g'"
    by (auto simp add: py_simps)
  from handle_event_stuck [OF Cons.prems(1) h1] h2 show ?case by (rule Cons.IH)
qed

lemma move_player_stuck: "stuck g \<Longrightarrow> move_player keys g = Inr g' \<Longrightarrow> stuck g'"
  by (auto simp add: stuck_def dest: move_player_Inr)

lemma frame_stuck:
  assumes "stuck g" and "frame evs keys g = Inr g'"
  shows "stuck g'"
proof -
  from assms(2) obtain g1 g2 where s: "(if in_start_menu g then Inr g else if is_game_over g then Inr g else simulate g) = Inr g1"
    and e: "handle_events evs g1 = Inr g2" and m: "move_player keys g2 = Inr g'"
    by (auto simp add: frame_def py_simps)
  have "g1 = g \<or> simulate g = Inr g1"
    using s by (simp split: if_splits)
  then have "stuck g1"
    using assms(1) by (auto simp add: stuck_def simulate_no_targets)
  from move_player_stuck [OF handle_events_stuck [OF this e] m] show ?thesis .
qed

lemma run_stuck: "stuck g \<Longrightarrow> run fs g = Inr g' \<Longrightarrow> stuck g'"
proof (induction fs arbitrary: g)
  case Nil
  then show ?case by simp
next
  case (Cons f fs)
  then show ?case
    by (cases f) (auto simp add: py_simps split: if_splits dest: frame_stuck)
qed

text \<open>
  C13. \<^verbatim>\<open>restart_game\<close> clears the boss but not \<^verbatim>\<open>boss_stage\<close>
  (lines 188--197; compare \<^verbatim>\<open>reset_boss\<close>). Restarting from the start menu
  while the flag is set starts a game in which, whatever the inputs, no enemy and
  no boss ever appears again and the score stays 0: the enemy branch needs the
  flag clear and the boss branch needs 500 points.
\<close>

theorem restart_in_boss_stage_softlock:
  assumes "boss_stage g" and "in_start_menu g"
    and "handle_event (KEYDOWN K_SPACE) g = Inr g1" and "run inputs g1 = Inr g2"
  shows "enemies g2 = [] \<and> boss g2 = None \<and> score g2 = 0 \<and> mode g2 \<noteq> GameOver"
proof -
  from assms(2,3) have "g1 = restart_game g" by simp
  with assms(1) have "stuck g1" by (simp add: stuck_def restart_game_def)
  from run_stuck [OF this assms(4)] show ?thesis by (simp add: stuck_def mode_def)
qed

theorem restart_in_boss_stage_softlock_witness:
  "boss_stage (init_game\<lparr>boss_stage := True, is_game_over := True\<rparr>) \<and>
   in_start_menu (init_game\<lparr>boss_stage := True, is_game_over := True\<rparr>) \<and>
   handle_event (KEYDOWN K_SPACE) (init_game\<lparr>boss_stage := True, is_game_over := True\<rparr>) =
     Inr (restart_game (init_game\<lparr>boss_stage := True\<rparr>)) \<and>
   run [([ENEMY_EVENT 3, ENEMY_EVENT 900], [])] (restart_game (init_game\<lparr>boss_stage := True\<rparr>)) =
     Inr (restart_game (init_game\<lparr>boss_stage := True\<rparr>)) \<and>
   enemies (restart_game (init_game\<lparr>boss_stage := True\<rparr>)) = []"
proof -
  let ?g = "init_game\<lparr>boss_stage := True, is_game_over := True\<rparr>"
  let ?g1 = "restart_game (init_game\<lparr>boss_stage := True\<rparr>)"
  have h1: "boss_stage ?g" "in_start_menu ?g" by (simp_all add: init_game_def)
  have h2: "handle_event (KEYDOWN K_SPACE) ?g = Inr ?g1"
    by (simp add: init_game_def restart_game_def)
  have h3: "run [([ENEMY_EVENT 3, ENEMY_EVENT 900], [])] ?g1 = Inr ?g1"
    by (simp add: frame_def simulate_no_targets restart_game_def init_game_def enemy_timer_def
        move_player_def)
  from restart_in_boss_stage_softlock [OF h1 h2 h3] h1 h2 h3 show ?thesis by simp
qed

section \<open>Score within a session\<close>

lemma handle_events_session:
  "\<not> in_start_menu g \<Longrightarrow> KEYDOWN K_r \<notin> set evs \<Longrightarrow> handle_events evs g = Inr g' \<Longrightarrow>
     \<not> in_start_menu g' \<and> score g' = score g"
proof (induction evs arbitrary: g)
  case Nil
  then show ?case by simp
next
  case (Cons e es)
  then obtain g1 where h1: "handle_event e g = Inr g1" and h2: "handle_events es g1 = Inr g'"
    by (auto simp add: py_simps)
  have "\<not> in_start_menu g1 \<and> score g1 = score g"
  proof (cases e)
    case (KEYDOWN k)
    with h1 Cons.prems(1,2) show ?thesis
      by (auto simp add: py_simps split: if_splits)
  next
    case (ENEMY_EVENT r)
    with h1 show ?thesis using enemy_timer_keeps [of r g g1] Cons.prems(1) by simp
  qed (use h1 Cons.prems(1) in auto)
  with Cons.IH [OF _ _ h2] Cons.prems(2) show ?case by simp
qed

text \<open>
  C14. Within a session the score never decreases: a frame that starts outside the
  start menu and has no restart key press ends with at least the score it began
  with.
\<close>

theorem frame_score_mono:
  assumes "\<not> in_start_menu g" and "KEYDOWN K_r \<notin> set evs" and "frame evs keys g = Inr g'"
  shows "score g \<le> score g'"
proof -
  from assms(3) obtain g1 g2 where s: "(if in_start_menu g then Inr g else if is_game_over g then Inr g else simulate g) = Inr g1"
    and e: "handle_events evs g1 = Inr g2" and m: "move_player keys g2 = Inr g'"
    by (auto simp add: frame_def py_simps)
  have "\<not> in_start_menu g1 \<and> score g \<le> score g1"
    using s assms(1) simulate_frame [of g g1] by (auto split: if_splits)
  with handle_events_session [OF _ assms(2) e] move_player_Inr [OF m] show ?thesis
    by auto
qed

theorem frame_score_mono_witness:
  "\<not> in_start_menu (init_game\<lparr>in_start_menu := False, player_bullets := [(Rect 100 100 5 5, 0, -10)],
                               enemies := [Rect 98 80 30 30]\<rparr>) \<and>
   KEYDOWN K_r \<notin> set [KEYDOWN K_SPACE] \<and>
   frame [KEYDOWN K_SPACE] [] (init_game\<lparr>in_start_menu := False, player_bullets := [(Rect 100 100 5 5, 0, -10)],
                               enemies := [Rect 98 80 30 30]\<rparr>) =
     Inr (init_game\<lparr>in_start_menu := False, player_bullets := [(Rect 706 708 5 5, 0, -10)], score := 10,
                     played := [Enemy_hit_sound, Bullet_sound]\<rparr>) \<and>
   score (init_game\<lparr>in_start_menu := False, player_bullets := [(Rect 100 100 5 5, 0, -10)],
                               enemies := [Rect 98 80 30 30]\<rparr>) <
   score (init_game\<lparr>in_start_menu := False, player_bullets := [(Rect 706 708 5 5, 0, -10)], score := 10,
                     played := [Enemy_hit_sound, Bullet_sound]\<rparr>)"
proof -
  let ?g = "init_game\<lparr>in_start_menu := False, player_bullets := [(Rect 100 100 5 5, 0, -10)],
                               enemies := [Rect 98 80 30 30]\<rparr>"
  let ?g' = "init_game\<lparr>in_start_menu := False, player_bullets := [(Rect 706 708 5 5, 0, -10)], score := 10,
                     played := [Enemy_hit_sound, Bullet_sound]\<rparr>"
  have h1: "\<not> in_start_menu ?g" by (simp add: init_game_def)
  have h2: "KEYDOWN K_r \<notin> set [KEYDOWN K_SPACE]" by simp
  have h3: "frame [KEYDOWN K_SPACE] [] ?g = Inr ?g'"
    by (simp add: frame_def simulate_eq move_boss_def check_collisions_def player_passes_def hit_boss_def
        boss_struck_def move_pbullet_def pbullet_gone_def enemy_step_def below_field_def fire_bullet_def
        new_rect_eq in_c_int_iff init_game_def loaded_sounds_def colliderect_def game_constants)
  from frame_score_mono [OF h1 h2 h3] h1 h2 h3 show ?thesis by (simp add: init_game_def)
qed

section \<open>Player movement\<close>




end
