(* ===== verification/Invariant.thy ===== *)
theory Invariant
  imports Game_Loop
begin

text \<open>
  Invariants of the states at the top of the main loop of \<^verbatim>\<open>src/game.py\<close>.
  Each is proved for every operation of a frame and then for all reachable
  states by rule induction. \<open>game_inv\<close> covers the globals: the loaded sounds,
  the boss health, the boss stage and the score. \<open>shape_inv\<close> covers the
  rectangles: the size of each kind of entity, where on the field it can be,
  and that the coordinates the code later assigns from stay C \<open>int\<close>s.
\<close>

section \<open>The shape of the field\<close>

text \<open>
  Each kind of entity has its own size, and enemies and the boss stay inside
  the columns they were spawned in. Lists are constrained with
  \<open>list_all\<close>, the boss with \<open>pred_option\<close>.
\<close>

definition pbullet_ok :: "pbullet \<Rightarrow> bool" where
  "pbullet_ok b = (case b of (r, dx, dy) \<Rightarrow>
     rw r = BULLET_SIZE \<and> rh r = BULLET_SIZE \<and> dx = 0 \<and> dy = -10 \<and> in_c_int (rx r) \<and>
     0 \<le> ry r \<and> ry r \<le> HEIGHT - PLAYER_SIZE - 10)"

definition ebullet_ok :: "rect \<Rightarrow> bool" where
  "ebullet_ok r \<longleftrightarrow> rw r = BULLET_SIZE \<and> rh r = BULLET_SIZE \<and>
     ENEMY_SIZE div 2 \<le> rx r \<and> rx r \<le> WIDTH - ENEMY_SIZE div 2 \<and> ENEMY_SIZE \<le> ry r \<and>
     ry r \<le> HEIGHT + ENEMY_SIZE"

definition enemy_ok :: "rect \<Rightarrow> bool" where
  "enemy_ok r \<longleftrightarrow> rw r = ENEMY_SIZE \<and> rh r = ENEMY_SIZE \<and>
     0 \<le> rx r \<and> rx r \<le> WIDTH - ENEMY_SIZE \<and> 0 \<le> ry r \<and> ry r \<le> HEIGHT"

definition boss_ok :: "rect \<Rightarrow> bool" where
  "boss_ok r \<longleftrightarrow> rw r = BOSS_SIZE \<and> rh r = BOSS_SIZE \<and>
     0 \<le> rx r \<and> rx r \<le> WIDTH - BOSS_SIZE \<and> -100 \<le> ry r \<and> ry r \<le> HEIGHT"

definition shape_inv :: "game \<Rightarrow> bool" where
  "shape_inv g \<longleftrightarrow> rw (player g) = PLAYER_SIZE \<and> rh (player g) = PLAYER_SIZE \<and>
     in_c_int (rx (player g)) \<and> ry (player g) = HEIGHT - PLAYER_SIZE - 10 \<and>
     list_all pbullet_ok (player_bullets g) \<and> list_all ebullet_ok (enemy_bullets g) \<and>
     list_all enemy_ok (enemies g) \<and> pred_option boss_ok (boss g)"

section \<open>The invariant of the reachable states\<close>

text \<open>
  What every state at the top of the main loop satisfies: the sound globals are
  those bound at start-up, the boss has full health, a boss on the field implies
  the boss stage, and the score is a non-negative multiple of 10.
\<close>

definition game_inv :: "game \<Rightarrow> bool" where
  "game_inv g \<longleftrightarrow> sound_names g = loaded_sounds \<and> boss_health g = 20 \<and>
     (boss g \<noteq> None \<longrightarrow> boss_stage g) \<and> 0 \<le> score g \<and> 10 dvd score g"

lemma game_inv_init: "game_inv init_game"
  by (simp add: game_inv_def init_game_def)

lemma game_inv_unbound: "game_inv g \<Longrightarrow> Boss_hit_sound \<notin> set (sound_names g)"
  by (simp add: game_inv_def loaded_sounds_def)

lemma move_boss_inv: "game_inv g \<Longrightarrow> game_inv (move_boss g)"
  by (auto simp add: game_inv_def move_boss_def reset_boss_def Let_def split: option.splits)

lemma simulate_inv:
  assumes "game_inv g" and "simulate g = Inr g'"
  shows "game_inv g'"
proof -
  let ?g2 = "g\<lparr>player_bullets := filter (\<lambda>b. \<not> pbullet_gone b) (map move_pbullet (player_bullets g)),
      enemy_bullets := filter (\<lambda>r. \<not> below_field r) (map ebullet_step (enemy_bullets g)),
      enemies := filter (\<lambda>r. \<not> below_field r) (map enemy_step (enemies g))\<rparr>"
  have i3: "game_inv (move_boss ?g2)"
    using assms(1) by (intro move_boss_inv) (simp add: game_inv_def)
  have c: "check_collisions (move_boss ?g2) = Inr g'"
    using assms(2) by (simp add: simulate_eq)
  note u = check_collisions_unbound_boss [OF game_inv_unbound [OF i3] c]
  note f = check_collisions_frame [OF c]
  note d = check_collisions_score_dvd [OF _ c]
  from i3 u f d show ?thesis by (auto simp add: game_inv_def)
qed

lemma enemy_timer_inv:
  "game_inv g \<Longrightarrow> enemy_timer r g = Inr g' \<Longrightarrow> game_inv g'"
  by (auto simp add: game_inv_def enemy_timer_def spawn_enemy_def enemy_fire_def spawn_boss_def py_simps
      Let_def split: if_splits)

lemma handle_event_inv:
  assumes "game_inv g" and "handle_event e g = Inr g'"
  shows "game_inv g'"
proof (cases e)
  case (KEYDOWN k)
  with assms show ?thesis
    by (auto simp add: game_inv_def restart_game_def py_simps split: if_splits)
next
  case (ENEMY_EVENT r)
  with assms show ?thesis by (simp add: enemy_timer_inv)
qed (use assms in \<open>auto simp add: game_inv_def\<close>)

lemma handle_events_inv:
  "game_inv g \<Longrightarrow> handle_events evs g = Inr g' \<Longrightarrow> game_inv g'"
proof (induction evs arbitrary: g)
  case Nil
  then show ?case by simp
next
  case (Cons e es)
  then obtain g1 where h1: "handle_event e g = Inr g1" and h2: "handle_events es g1 = Inr g'"
    by (auto simp add: py_simps)
  from handle_event_inv [OF Cons.prems(1) h1] h2 show ?case by (rule Cons.IH)
qed

lemma move_player_inv: "game_inv g \<Longrightarrow> move_player keys g = Inr g' \<Longrightarrow> game_inv g'"
  by (auto simp add: game_inv_def dest: move_player_Inr)

lemma frame_inv:
  assumes "game_inv g" and "frame evs keys g = Inr g'"
  shows "game_inv g'"
proof -
  from assms(2) obtain g1 g2 where s: "(if in_start_menu g then Inr g else if is_game_over g then Inr g else simulate g) = Inr g1"
    and e: "handle_events evs g1 = Inr g2" and m: "move_player keys g2 = Inr g'"
    by (auto simp add: frame_def py_simps)
  have "g1 = g \<or> simulate g = Inr g1"
    using s by (simp split: if_splits)
  then have "game_inv g1"
    using assms(1) simulate_inv by blast
  from move_player_inv [OF handle_events_inv [OF this e] m] show ?thesis .
qed

lemma reachable_game_inv: "reachable g \<Longrightarrow> game_inv g"
proof (induction rule: reachable.induct)
  case init
  show ?case by (rule game_inv_init)
next
  case (step g evs keys g')
  then show ?case by (blast intro: frame_inv)
qed

section \<open>Every frame keeps the shape\<close>

named_theorems shape_simps \<open>unfoldings for the shape invariant\<close>

lemmas [shape_simps] = shape_inv_def pbullet_ok_def ebullet_ok_def enemy_ok_def boss_ok_def game_constants

lemma list_all_subset: "list_all P xs \<Longrightarrow> set ys \<subseteq> set xs \<Longrightarrow> list_all P ys"
  by (auto simp add: list_all_iff)

lemma shape_inv_init: "shape_inv init_game"
  by (simp add: init_game_def shape_simps in_c_int_iff)

lemma move_pbullet_ok: "pbullet_ok b \<Longrightarrow> \<not> pbullet_gone (move_pbullet b) \<Longrightarrow> pbullet_ok (move_pbullet b)"
  by (auto simp add: pbullet_ok_def pbullet_gone_def move_pbullet_def split: prod.splits)

lemma list_all_filter_map:
  "(\<And>x. P x \<Longrightarrow> \<not> out (f x) \<Longrightarrow> Q (f x)) \<Longrightarrow> list_all P xs \<Longrightarrow> list_all Q (filter (\<lambda>x. \<not> out x) (map f xs))"
  by (induction xs) auto

lemma move_boss_shape: "shape_inv g \<Longrightarrow> shape_inv (move_boss g)"
  by (auto simp add: move_boss_def reset_boss_def shape_simps Let_def split: option.splits)

lemma check_collisions_shape:
  assumes "shape_inv g" and "check_collisions g = Inr g'"
  shows "shape_inv g'"
proof -
  note f = check_collisions_frame [OF assms(2)]
  have "pred_option boss_ok (boss g')"
    using f assms(1) unfolding shape_inv_def by (metis option.pred_inject(1))
  moreover have "list_all pbullet_ok (player_bullets g')" "list_all enemy_ok (enemies g')"
    using f assms(1) unfolding shape_inv_def by (blast intro: list_all_subset)+
  ultimately show ?thesis
    using f assms(1) unfolding shape_inv_def by simp
qed

lemma simulate_shape:
  assumes "shape_inv g" and "simulate g = Inr g'"
  shows "shape_inv g'"
proof -
  let ?g2 = "g\<lparr>player_bullets := filter (\<lambda>b. \<not> pbullet_gone b) (map move_pbullet (player_bullets g)),
      enemy_bullets := filter (\<lambda>r. \<not> below_field r) (map ebullet_step (enemy_bullets g)),
      enemies := filter (\<lambda>r. \<not> below_field r) (map enemy_step (enemies g))\<rparr>"
  have h: "list_all pbullet_ok (player_bullets g)" "list_all ebullet_ok (enemy_bullets g)"
      "list_all enemy_ok (enemies g)"
    using assms(1) by (simp_all add: shape_inv_def)
  have "list_all pbullet_ok (player_bullets ?g2)"
    by (simp, rule list_all_filter_map [OF _ h(1)], blast intro: move_pbullet_ok)
  moreover have "list_all ebullet_ok (enemy_bullets ?g2)"
    by (simp, rule list_all_filter_map [OF _ h(2)], simp add: ebullet_ok_def ebullet_step_def below_field_def game_constants)
  moreover have "list_all enemy_ok (enemies ?g2)"
    by (simp, rule list_all_filter_map [OF _ h(3)], simp add: enemy_ok_def enemy_step_def below_field_def)
  ultimately have "shape_inv ?g2" using assms(1) by (simp add: shape_inv_def)
  then have "shape_inv (move_boss ?g2)" by (rule move_boss_shape)
  moreover have "check_collisions (move_boss ?g2) = Inr g'" using assms(2) by (simp add: simulate_eq)
  ultimately show ?thesis by (rule check_collisions_shape)
qed

lemma enemy_bullet_ok: "enemy_ok e \<Longrightarrow> ebullet_ok (enemy_bullet_of e)"
  by (simp add: enemy_ok_def ebullet_ok_def enemy_bullet_of_def game_constants)

lemma spawn_enemy_shape: "shape_inv g \<Longrightarrow> shape_inv (spawn_enemy r g)"
proof -
  assume s: "shape_inv g"
  have "0 \<le> randint 0 (WIDTH - ENEMY_SIZE) r \<and> randint 0 (WIDTH - ENEMY_SIZE) r \<le> WIDTH - ENEMY_SIZE"
    by (rule randint_range) (simp add: game_constants)
  with s show ?thesis
    by (simp add: spawn_enemy_def shape_inv_def enemy_ok_def Let_def game_constants)
qed

lemma enemy_fire_shape: "shape_inv g \<Longrightarrow> shape_inv (enemy_fire g)"
  by (auto simp add: enemy_fire_def shape_inv_def list_all_iff intro: enemy_bullet_ok)

lemma spawn_boss_shape: "shape_inv g \<Longrightarrow> spawn_boss r g = Inr g' \<Longrightarrow> shape_inv g'"
proof -
  assume s: "shape_inv g" and e: "spawn_boss r g = Inr g'"
  have "0 \<le> randint 0 (WIDTH - BOSS_SIZE) r \<and> randint 0 (WIDTH - BOSS_SIZE) r \<le> WIDTH - BOSS_SIZE"
    by (rule randint_range) (simp add: game_constants)
  with s e show ?thesis
    by (auto simp add: spawn_boss_def shape_inv_def boss_ok_def Let_def play_Inr game_constants)
qed

lemma enemy_timer_shape: "shape_inv g \<Longrightarrow> enemy_timer r g = Inr g' \<Longrightarrow> shape_inv g'"
  unfolding enemy_timer_def Let_def
  by (auto split: if_splits intro: spawn_enemy_shape enemy_fire_shape spawn_boss_shape)

lemma handle_event_shape:
  assumes "shape_inv g" and "handle_event e g = Inr g'"
  shows "shape_inv g'"
proof (cases e)
  case (KEYDOWN k)
  with assms show ?thesis
    by (auto simp add: shape_inv_def pbullet_ok_def restart_game_def py_simps game_constants in_c_int_iff
        split: if_splits)
next
  case (ENEMY_EVENT r)
  with assms show ?thesis by (simp add: enemy_timer_shape)
qed (use assms in \<open>auto simp add: shape_inv_def\<close>)

lemma handle_events_shape:
  "shape_inv g \<Longrightarrow> handle_events evs g = Inr g' \<Longrightarrow> shape_inv g'"
proof (induction evs arbitrary: g)
  case Nil
  then show ?case by simp
next
  case (Cons e es)
  then obtain g1 where h1: "handle_event e g = Inr g1" and h2: "handle_events es g1 = Inr g'"
    by (auto simp add: py_simps)
  from handle_event_shape [OF Cons.prems(1) h1] h2 show ?case by (rule Cons.IH)
qed

lemma move_player_shape: "shape_inv g \<Longrightarrow> move_player keys g = Inr g' \<Longrightarrow> shape_inv g'"
  by (auto simp add: shape_inv_def dest: move_player_Inr move_player_rx)

lemma frame_shape:
  assumes "shape_inv g" and "frame evs keys g = Inr g'"
  shows "shape_inv g'"
proof -
  from assms(2) obtain g1 g2 where s: "(if in_start_menu g then Inr g else if is_game_over g then Inr g else simulate g) = Inr g1"
    and e: "handle_events evs g1 = Inr g2" and m: "move_player keys g2 = Inr g'"
    by (auto simp add: frame_def py_simps)
  have "g1 = g \<or> simulate g = Inr g1"
    using s by (simp split: if_splits)
  then have "shape_inv g1"
    using assms(1) simulate_shape by blast
  from move_player_shape [OF handle_events_shape [OF this e] m] show ?thesis .
qed

lemma reachable_shape_inv: "reachable g \<Longrightarrow> shape_inv g"
proof (induction rule: reachable.induct)
  case init
  show ?case by (rule shape_inv_init)
next
  case (step g evs keys g')
  then show ?case by (blast intro: frame_shape)
qed

end
