(* ===== verification/Render.thy ===== *)
theory Render
  imports Complex_Main Game_State
begin

text \<open>
  The drawing code of \<^verbatim>\<open>src/game.py\<close>: the colours (lines 17--22), the
  \<^verbatim>\<open>draw_*\<close> functions (lines 72--90), \<^verbatim>\<open>draw_score\<close>,
  \<^verbatim>\<open>game_over_screen\<close> and \<^verbatim>\<open>start_menu\<close> (lines 176--186), and the
  dispatch that picks them at the top of each frame (lines 202--213). The screen
  is a list of drawing commands in the order the code issues them, so each
  function returns the commands it sends to \<^verbatim>\<open>pygame.draw\<close> or
  \<^verbatim>\<open>screen.blit\<close>. The score is printed with Python's \<^verbatim>\<open>str\<close> of an
  int.
\<close>

section \<open>Colours and drawing commands\<close>

type_synonym color = "int \<times> int \<times> int"

definition WHITE :: color where "WHITE = (255, 255, 255)"
definition GREEN :: color where "GREEN = (0, 255, 0)"
definition RED :: color where "RED = (255, 0, 0)"
definition YELLOW :: color where "YELLOW = (255, 255, 0)"
definition PURPLE :: color where "PURPLE = (128, 0, 128)"

lemmas game_colors = WHITE_def GREEN_def RED_def YELLOW_def PURPLE_def

text \<open>
  \<open>Fill c\<close> is \<^verbatim>\<open>screen.fill(c)\<close>, \<open>Draw_rect c r\<close> is
  \<^verbatim>\<open>pygame.draw.rect(screen, c, r)\<close>. \<open>Draw_bar c x y w h\<close> is the same
  call on a tuple whose width is the float of line 89, kept exact as a rational.
  \<open>Blit c s x y\<close> is \<^verbatim>\<open>screen.blit(font.render(s, True, c), (x, y))\<close>.
\<close>

datatype draw = Fill color | Draw_rect color rect | Draw_bar color int int rat int
  | Blit color string int int

section \<open>Python's \<^verbatim>\<open>str\<close> of an int\<close>

text \<open>
  The f-string of line 177 formats the score in decimal, with no leading zeros
  and a minus sign for a negative value.
\<close>

function decimal :: "nat \<Rightarrow> string" where
  "decimal n = (if n < 10 then [char_of (48 + n)] else decimal (n div 10) @ [char_of (48 + n mod 10)])"
  by pat_completeness auto
termination by (relation "measure id") auto

declare decimal.simps [simp del]

definition py_str_int :: "int \<Rightarrow> string" where
  "py_str_int i = (if i < 0 then CHR ''-'' # decimal (nat (- i)) else decimal (nat i))"

section \<open>The drawing functions\<close>

definition draw_player :: "game \<Rightarrow> draw list" where
  "draw_player g = [Draw_rect GREEN (player g)]"

definition draw_bullets :: "game \<Rightarrow> draw list" where
  "draw_bullets g = map (\<lambda>b. Draw_rect YELLOW (fst b)) (player_bullets g) @ map (Draw_rect RED) (enemy_bullets g)"

definition draw_enemies :: "game \<Rightarrow> draw list" where
  "draw_enemies g = map (Draw_rect RED) (enemies g)"

text \<open>Lines 85--90: the boss and above it a bar whose width is its share of 20 health points.\<close>

definition draw_boss :: "game \<Rightarrow> draw list" where
  "draw_boss g = (case boss g of
       None \<Rightarrow> []
     | Some bo \<Rightarrow> [Draw_rect PURPLE bo,
                   Draw_bar RED (rx bo) (ry bo - 10) (of_int (rw bo) * (of_int (boss_health g) / 20)) 5])"

definition draw_score :: "game \<Rightarrow> draw list" where
  "draw_score g = [Blit WHITE (''Score: '' @ py_str_int (score g)) 10 10]"

definition game_over_screen :: "draw list" where
  "game_over_screen = [Blit WHITE ''Game Over! Press R to restart.'' (WIDTH div 2 - 150) (HEIGHT div 2)]"

definition start_menu :: "draw list" where
  "start_menu = [Blit WHITE ''Press SPACE to start the game.'' (WIDTH div 2 - 200) (HEIGHT div 2)]"

text \<open>Lines 202--213: what one iteration of the loop draws, before anything moves.\<close>

definition render :: "game \<Rightarrow> draw list" where
  "render g = Fill (0, 0, 0) #
     (if in_start_menu g then start_menu
      else if is_game_over g then game_over_screen
      else draw_player g @ draw_bullets g @ draw_enemies g @ draw_boss g @ draw_score g)"

end
