(* ===== verification/Reachability.thy ===== *)
theory Reachability
  imports Game_Loop
begin

text \<open>
  Concrete runs of the game loop, and the timing that makes them runs the real
  program can take. The model of \<^verbatim>\<open>frame\<close> takes the timer events of a
  frame as input; here a trace is paired with the durations of its frames, and
  \<open>timed\<close> checks that each frame lasts at least what \<^verbatim>\<open>clock.tick(FPS)\<close>
  enforces and holds exactly the timer events that fell due in it. A periodic
  trace at 50 frames a second, one enemy a second, is computed in closed form:
  the player shoots each enemy and steps aside from its bullet, and after 50
  enemies the boss comes. From there a lost game and a restart lead to the
  softlock that \<^verbatim>\<open>restart_game\<close> leaves behind.
\<close>

section \<open>The timer\<close>

text \<open>
  Line 15 sets \<^verbatim>\<open>FPS\<close>, line 41 the timer period, line 43 starts the timer
  at time 0, and line 250 ends every iteration with \<^verbatim>\<open>clock.tick(FPS)\<close>,
  which waits until \<open>1000 div FPS\<close> milliseconds have passed since the previous
  tick. \<open>timed t ds fs\<close>: the frames \<open>fs\<close>, the first starting at time
  \<open>t\<close>, take \<open>ds\<close> milliseconds each, and the \<^verbatim>\<open>pygame.event.get()\<close> of
  each frame returns one \<^verbatim>\<open>enemy_event\<close> for each multiple of the period
  that has passed since the previous one.
\<close>

definition FPS :: nat where "FPS = 60"

definition enemy_timer_ms :: nat where "enemy_timer_ms = 1000"

fun timer_events :: "event list \<Rightarrow> nat" where
  "timer_events [] = 0"
| "timer_events (ENEMY_EVENT r # es) = Suc (timer_events es)"
| "timer_events (e # es) = timer_events es"

fun timed :: "nat \<Rightarrow> nat list \<Rightarrow> (event list \<times> key list) list \<Rightarrow> bool" where
  "timed t [] [] = True"
| "timed t (d # ds) ((evs, keys) # fs) \<longleftrightarrow>
     1000 div FPS \<le> d \<and> timer_events evs = (t + d) div enemy_timer_ms - t div enemy_timer_ms \<and>
     timed (t + d) ds fs"
| "timed t ds fs = False"

section \<open>The run to the boss stage\<close>

text \<open>
  Every frame takes 20 ms, so the timer fires in every 50th frame. The first
  49 frames start the game and fire one shot. Each period of 50 frames then
  starts with the timer event, which spawns an enemy at \<open>x = 710\<close> and fires
  its bullet; the player fires in the period's third frame, and that shot kills
  the enemy of the next period in its 18th frame. The enemy bullet of a period
  falls past the player in frames 35 to 45 two periods later, while the player
  steps 10 pixels to the left. After 50 periods the score is 500 and the next
  timer event brings the boss.
\<close>

definition opening_inputs :: "(event list \<times> key list) list" where
  "opening_inputs = [([KEYDOWN K_SPACE], []), ([KEYDOWN K_SPACE], [])] @ replicate 47 ([], [])"

definition period_inputs :: "(event list \<times> key list) list" where
  "period_inputs = [([ENEMY_EVENT 710], []), ([], []), ([KEYDOWN K_SPACE], [])] @ replicate 30 ([], []) @
     replicate 2 ([], [K_LEFT]) @ replicate 10 ([], []) @ replicate 2 ([], [K_RIGHT]) @ replicate 3 ([], [])"

definition boss_inputs :: "(event list \<times> key list) list" where
  "boss_inputs = opening_inputs @ concat (replicate 50 period_inputs) @ [([ENEMY_EVENT 0], [])]"

text \<open>The state at the start of period \<open>k\<close>: the shot of the previous period in flight, the bullets of the last two enemies falling.\<close>

definition period_state :: "nat \<Rightarrow> game" where
  "period_state k = init_game\<lparr>in_start_menu := False, player_bullets := [(Rect 706 238 5 5, 0, -10)],
     enemy_bullets := drop (2 - k) [Rect 725 525 5 5, Rect 725 275 5 5], score := 10 * int k,
     played := Bullet_sound # concat (replicate k [Bullet_sound, Enemy_hit_sound])\<rparr>"

definition boss_state :: game where
  "boss_state = init_game\<lparr>in_start_menu := False, player_bullets := [(Rect 706 228 5 5, 0, -10)],
     enemy_bullets := [Rect 725 530 5 5, Rect 725 280 5 5], score := 500,
     boss := Some (Rect 0 (-100) 100 100), boss_stage := True,
     played := Bullet_sound # concat (replicate 50 [Bullet_sound, Enemy_hit_sound]) @ [Boss_intro_sound]\<rparr>"

text \<open>
  From there the player stands still: 35 frames later the older enemy bullet
  hits, with the boss still on the field. Then \<open>r\<close> returns to the start
  menu and \<open>SPACE\<close> restarts while the boss stage is still set.
\<close>

definition softlock_inputs :: "(event list \<times> key list) list" where
  "softlock_inputs = replicate 35 ([], []) @ [([KEYDOWN K_r], []), ([KEYDOWN K_SPACE], [])]"

definition softlock_state :: game where
  "softlock_state = init_game\<lparr>in_start_menu := False, boss_stage := True,
     played := Bullet_sound # concat (replicate 50 [Bullet_sound, Enemy_hit_sound]) @
               [Boss_intro_sound, Game_over_sound]\<rparr>"

section \<open>Runs\<close>

lemma bindE_assoc: "bindE (bindE m f) h = bindE m (\<lambda>x. bindE (f x) h)"
  by (cases m) simp_all

lemma run_not_running: "\<not> running g \<Longrightarrow> run fs g = Inr g"
  by (cases fs) auto

lemma run_append: "run (xs @ ys) g = bindE (run xs g) (run ys)"
proof (induction xs arbitrary: g)
  case Nil
  then show ?case by simp
next
  case (Cons f xs)
  have IH: "run (xs @ ys) = (\<lambda>g. bindE (run xs g) (run ys))"
    by (rule ext) (rule Cons.IH)
  show ?case
    by (cases f) (simp add: IH bindE_assoc run_not_running)
qed

lemma reachable_run: "reachable g \<Longrightarrow> run fs g = Inr g' \<Longrightarrow> reachable g'"
proof (induction fs arbitrary: g)
  case Nil
  then show ?case by simp
next
  case (Cons f fs)
  then show ?case
    by (cases f) (auto simp add: py_simps split: if_splits intro: reachable.step)
qed

section \<open>The runs, period by period\<close>

text \<open>The definitions a concrete frame unfolds to.\<close>

lemmas frame_simps = frame_def simulate_eq check_collisions_split player_passes_def hit_boss_def boss_struck_def
  move_boss_def move_pbullet_def pbullet_gone_def ebullet_step_def enemy_step_def below_field_def colliderect_def
  move_player_def set_rx_eq in_c_int_iff enemy_timer_def spawn_enemy_def spawn_boss_def enemy_fire_def
  enemy_bullet_of_def randint_def fire_bullet_def new_rect_eq restart_game_def init_game_def loaded_sounds_def
  game_constants player_speed_def Rect_def

lemma run_opening: "run opening_inputs init_game = Inr (period_state 0)"
  by (simp add: opening_inputs_def period_state_def numeral_eq_Suc frame_simps)

lemma run_period:
  assumes "k < 50"
  shows "run period_inputs (period_state k) = Inr (period_state (Suc k))"
proof -
  have s: "10 * int k < 500" using assms by simp
  consider "k = 0" | "k = 1" | "2 \<le> k" by linarith
  then show ?thesis
  proof cases
    case 1
    then show ?thesis
      by (simp add: period_inputs_def period_state_def numeral_eq_Suc frame_simps)
  next
    case 2
    then show ?thesis
      by (simp add: period_inputs_def period_state_def numeral_eq_Suc frame_simps)
  next
    case 3
    with s show ?thesis
      by (simp add: period_inputs_def period_state_def numeral_eq_Suc frame_simps replicate_append_same [symmetric])
  qed
qed

lemma run_periods: "k + m \<le> 50 \<Longrightarrow> run (concat (replicate m period_inputs)) (period_state k) = Inr (period_state (k + m))"
proof (induction m arbitrary: k)
  case 0
  then show ?case by simp
next
  case (Suc m)
  then have "run period_inputs (period_state k) = Inr (period_state (Suc k))" by (intro run_period) simp
  with Suc.IH [of "Suc k"] Suc.prems show ?case by (simp add: run_append)
qed

lemma run_boss_inputs: "run boss_inputs init_game = Inr boss_state"
proof -
  have "run [([ENEMY_EVENT 0], [])] (period_state 50) = Inr boss_state"
    by (simp add: period_state_def boss_state_def frame_simps)
  then show ?thesis
    using run_periods [of 0 50] by (simp add: boss_inputs_def run_append run_opening)
qed

lemma reachable_boss_state: "reachable boss_state"
  by (rule reachable_run [OF reachable.init run_boss_inputs])

lemma run_softlock_inputs: "run softlock_inputs boss_state = Inr softlock_state"
  by (simp add: softlock_inputs_def boss_state_def softlock_state_def numeral_eq_Suc frame_simps)

lemma reachable_softlock_state: "reachable softlock_state"
  by (rule reachable_run [OF reachable_boss_state run_softlock_inputs])

section \<open>Timing of runs\<close>

lemma timed_append:
  "length ds1 = length fs1 \<Longrightarrow>
     timed t (ds1 @ ds2) (fs1 @ fs2) \<longleftrightarrow> timed t ds1 fs1 \<and> timed (t + sum_list ds1) ds2 fs2"
proof (induction ds1 arbitrary: t fs1)
  case Nil
  then show ?case by simp
next
  case (Cons d ds)
  then obtain evs keys fs where "fs1 = (evs, keys) # fs" and "length ds = length fs"
    by (cases fs1) auto
  with Cons.IH show ?case by (simp add: add.assoc)
qed

lemma replicate_numeral: "replicate (numeral n) x = x # replicate (pred_numeral n) x"
  by (simp add: numeral_eq_Suc)

lemma div_1000: "(1000 * n + c) div 1000 = n + c div (1000::nat)"
  by simp

lemmas timing_simps = replicate_numeral div_1000 FPS_def enemy_timer_ms_def

lemma timed_opening: "timed 0 (replicate 49 20) opening_inputs"
  by (simp add: opening_inputs_def timing_simps)

lemma timed_period: "timed (1000 * n + 980) (replicate 50 20) period_inputs"
  by (simp add: period_inputs_def timing_simps)

lemma timed_periods: "timed (1000 * n + 980) (replicate (50 * m) 20) (concat (replicate m period_inputs))"
proof (induction m arbitrary: n)
  case 0
  then show ?case by simp
next
  case (Suc m)
  have "length (replicate 50 (20::nat)) = length period_inputs" by (simp add: period_inputs_def)
  moreover have "1000 * n + 980 + sum_list (replicate 50 (20::nat)) = 1000 * Suc n + 980"
    by (simp add: sum_list_replicate)
  ultimately show ?case
    using timed_period [of n] Suc.IH [of "Suc n"]
    by (simp add: replicate_add timed_append)
qed

lemma timed_boss_inputs: "timed 0 (replicate 2550 20) boss_inputs"
proof -
  have l1: "length opening_inputs = 49" by (simp add: opening_inputs_def)
  have l2: "length (concat (replicate 50 period_inputs)) = 2500"
    by (simp add: period_inputs_def length_concat sum_list_replicate)
  have "replicate 2550 (20::nat) = replicate 49 20 @ replicate (50 * 50) 20 @ replicate 1 20"
    unfolding replicate_add [symmetric] by simp
  then have split: "replicate 2550 (20::nat) = replicate 49 20 @ replicate (50 * 50) 20 @ [20]"
    by simp
  have "timed (0 + 980 + 50000) [20] [([ENEMY_EVENT 0], [])]" by (simp add: timing_simps)
  then show ?thesis
    using timed_opening timed_periods [of 0 50]
    by (simp add: boss_inputs_def split timed_append l1 l2 sum_list_replicate)
qed

lemma timed_softlock_inputs: "timed 51000 (replicate 37 20) softlock_inputs"
  by (simp add: softlock_inputs_def timing_simps)

end
