(* ===== verification/Main_Loop.thy ===== *)
theory Main_Loop
  imports Invariant Render Reachability
begin

text \<open>
  The whole \<^verbatim>\<open>while running\<close> loop of \<^verbatim>\<open>src/game.py\<close> (lines
  199--251), over an unbounded stream of inputs, and the screens it shows.
  \<open>main_loop\<close> is a partial function into \<open>option\<close>: \<open>None\<close> means the loop
  never ends, \<open>Some (Inl e)\<close> that an exception ended it, and
  \<open>Some (Inr g)\<close> that \<^verbatim>\<open>running\<close> became false in state \<open>g\<close>.
  \<open>run_display\<close> pairs each completed frame with the drawing commands it shows.
  That screen is flipped at line 249 only when the frame completes.
\<close>

section \<open>The loop over an input stream\<close>

text \<open>
  \<open>inp n\<close> is the event queue and the held keys of the \<open>n\<close>-th iteration.
\<close>

partial_function (option) main_loop :: "(nat \<Rightarrow> event list \<times> key list) \<Rightarrow> nat \<Rightarrow> game \<Rightarrow> game py_result option" where
  "main_loop inp n g =
     (if running g then
        (case frame (fst (inp n)) (snd (inp n)) g of
           Inl e \<Rightarrow> Some (Inl e)
         | Inr g1 \<Rightarrow> main_loop inp (Suc n) g1)
      else Some (Inr g))"

section \<open>The screens shown\<close>

fun run_display :: "(event list \<times> key list) list \<Rightarrow> game \<Rightarrow> (draw list list \<times> game) py_result" where
  "run_display [] g = Inr ([], g)"
| "run_display ((evs, keys) # fs) g =
     (if running g then
        bindE (frame evs keys g) (\<lambda>g1. bindE (run_display fs g1) (\<lambda>(scr, g2). Inr (render g # scr, g2)))
      else Inr ([], g))"

text \<open>Whether a run has stopped: an exception, or \<^verbatim>\<open>running\<close> false.\<close>

definition stopped :: "game py_result \<Rightarrow> bool" where
  "stopped r = (case r of Inl _ \<Rightarrow> True | Inr g \<Rightarrow> \<not> running g)"

text \<open>A drawing command that shows a threat: a red or purple rectangle, or the boss's bar.\<close>

definition shows_threat :: "draw \<Rightarrow> bool" where
  "shows_threat d = (case d of Draw_rect c _ \<Rightarrow> c = RED \<or> c = PURPLE | Draw_bar _ _ _ _ _ \<Rightarrow> True | _ \<Rightarrow> False)"

section \<open>The running flag\<close>

lemma handle_event_running:
  "handle_event e g = Inr g' \<Longrightarrow> running g' \<longleftrightarrow> running g \<and> e \<noteq> QUIT"
proof (cases e)
  case (KEYDOWN k)
  moreover assume "handle_event e g = Inr g'"
  ultimately show ?thesis
    by (auto simp add: restart_game_def fire_bullet_def py_simps split: if_splits)
next
  case (ENEMY_EVENT r)
  moreover assume "handle_event e g = Inr g'"
  ultimately show ?thesis using enemy_timer_keeps by auto
qed auto

lemma handle_events_running:
  "handle_events evs g = Inr g' \<Longrightarrow> running g' \<longleftrightarrow> running g \<and> QUIT \<notin> set evs"
proof (induction evs arbitrary: g)
  case Nil
  then show ?case by simp
next
  case (Cons e es)
  then obtain g1 where h1: "handle_event e g = Inr g1" and h2: "handle_events es g1 = Inr g'"
    by (auto simp add: py_simps)
  from handle_event_running [OF h1] Cons.IH [OF h2] show ?case by auto
qed

lemma frame_running:
  assumes "frame evs keys g = Inr g'"
  shows "running g' \<longleftrightarrow> running g \<and> QUIT \<notin> set evs"
proof -
  from assms obtain g1 g2 where s: "(if in_start_menu g then Inr g else if is_game_over g then Inr g else simulate g) = Inr g1"
    and e: "handle_events evs g1 = Inr g2" and m: "move_player keys g2 = Inr g'"
    by (auto simp add: frame_def py_simps)
  have "running g1 = running g"
    using s simulate_frame by (auto split: if_splits)
  with handle_events_running [OF e] move_player_Inr [OF m] show ?thesis
    by auto
qed

section \<open>The loop and finite runs\<close>

lemma upt_Suc_Cons: "[n..<Suc (n + k)] = n # [Suc n..<Suc (n + k)]"
  by (simp add: upt_conv_Cons)

lemma main_loop_stopped:
  "stopped (run (map inp [n..<n + k]) g) \<Longrightarrow> main_loop inp n g = Some (run (map inp [n..<n + k]) g)"
proof (induction k arbitrary: n g)
  case 0
  then show ?case by (simp add: stopped_def main_loop.simps)
next
  case (Suc k)
  obtain evs keys where i: "inp n = (evs, keys)" by force
  show ?case
  proof (cases "running g")
    case False
    then show ?thesis by (simp add: upt_Suc_Cons i main_loop.simps del: upt_Suc)
  next
    case True
    show ?thesis
    proof (cases "frame evs keys g")
      case (Inl e)
      with True show ?thesis by (simp add: upt_Suc_Cons i main_loop.simps del: upt_Suc)
    next
      case (Inr g1)
      with True Suc.prems have "stopped (run (map inp [Suc n..<Suc n + k]) g1)"
        by (simp add: upt_Suc_Cons i del: upt_Suc)
      from Suc.IH [OF this] True Inr show ?thesis
        by (simp add: upt_Suc_Cons i main_loop.simps del: upt_Suc)
    qed
  qed
qed

lemma run_quit_stopped:
  "QUIT \<in> set (fst (inp (n + k))) \<Longrightarrow> stopped (run (map inp [n..<n + Suc k]) g)"
proof (induction k arbitrary: n g)
  case 0
  obtain evs keys where i: "inp n = (evs, keys)" by force
  with 0 show ?case
    by (cases "frame evs keys g") (auto simp add: stopped_def dest: frame_running)
next
  case (Suc k)
  obtain evs keys where i: "inp n = (evs, keys)" by force
  from Suc.prems have q: "QUIT \<in> set (fst (inp (Suc n + k)))" by simp
  have u: "[n..<Suc (Suc (n + k))] = n # [Suc n..<Suc (Suc (n + k))]"
    by (rule upt_conv_Cons) simp
  show ?case
    using Suc.IH [OF q]
    by (cases "frame evs keys g") (simp_all add: i u stopped_def del: upt_Suc)
qed

section \<open>Frames of the softlock\<close>

text \<open>
  In a softlocked state that satisfies both invariants, the only exception a frame
  can raise is \<open>TypeError\<close>, from a player coordinate that leaves the C
  \<open>int\<close> range. There is nothing to collide with and the shot cue is bound. With
  no arrow key held and room to build a bullet, no frame raises at all.
\<close>

definition calm :: "game \<Rightarrow> bool" where
  "calm g \<longleftrightarrow> stuck g \<and> game_inv g \<and> shape_inv g"

lemma calm_reachable: "reachable g \<Longrightarrow> stuck g \<Longrightarrow> calm g"
  by (simp add: calm_def reachable_game_inv reachable_shape_inv)

lemma handle_event_calm:
  assumes "calm g" and "handle_event e g = Inl err"
  shows "err = TypeError"
proof (cases e)
  case (KEYDOWN k)
  with assms show ?thesis
    by (auto simp add: calm_def stuck_def game_inv_def loaded_sounds_def fire_bullet_def new_rect_eq
        bindE_eq_Inl split: if_splits)
next
  case (ENEMY_EVENT r)
  with assms show ?thesis by (auto simp add: calm_def stuck_def enemy_timer_def Let_def split: if_splits)
qed (use assms in simp_all)

lemma handle_event_calm_ok:
  assumes "calm g" and "rx (player g) + 23 \<le> INT_MAX"
  shows "\<exists>g'. handle_event e g = Inr g' \<and> (rx (player g') = rx (player g) \<or> rx (player g') = 683)"
proof (cases e)
  case (KEYDOWN k)
  with assms show ?thesis
    by (auto simp add: calm_def stuck_def game_inv_def shape_inv_def loaded_sounds_def fire_bullet_def
        new_rect_eq restart_game_def in_c_int_def INT_MIN_def INT_MAX_def game_constants)
next
  case (ENEMY_EVENT r)
  with assms show ?thesis by (auto simp add: calm_def stuck_def enemy_timer_def)
qed simp_all

lemma calm_handle_event:
  "calm g \<Longrightarrow> handle_event e g = Inr g' \<Longrightarrow> calm g'"
  unfolding calm_def using handle_event_stuck handle_event_inv handle_event_shape by blast

lemma handle_events_calm:
  "calm g \<Longrightarrow> handle_events evs g = Inl err \<Longrightarrow> err = TypeError"
proof (induction evs arbitrary: g)
  case (Cons e es)
  show ?case
  proof (cases "handle_event e g")
    case (Inl err')
    with Cons.prems handle_event_calm show ?thesis by auto
  next
    case (Inr g1)
    with Cons.prems Cons.IH [of g1] show ?thesis by (simp add: calm_handle_event)
  qed
qed simp

lemma handle_events_calm_ok:
  "calm g \<Longrightarrow> rx (player g) + 23 \<le> INT_MAX \<Longrightarrow>
     \<exists>g'. handle_events evs g = Inr g' \<and> calm g' \<and> rx (player g') + 23 \<le> INT_MAX"
proof (induction evs arbitrary: g)
  case (Cons e es)
  from handle_event_calm_ok [OF Cons.prems] obtain g1 where h1: "handle_event e g = Inr g1"
    and x: "rx (player g1) = rx (player g) \<or> rx (player g1) = 683" by blast
  have "calm g1" by (rule calm_handle_event [OF Cons.prems(1) h1])
  moreover have "rx (player g1) + 23 \<le> INT_MAX" using x Cons.prems(2) by (auto simp add: INT_MAX_def)
  ultimately show ?case using Cons.IH h1 by simp
qed simp

lemma simulate_calm:
  assumes "calm g" and "\<not> in_start_menu g"
  shows "simulate g = Inr (g\<lparr>player_bullets := filter (\<lambda>b. \<not> pbullet_gone b) (map move_pbullet (player_bullets g))\<rparr>)"
  using assms by (simp add: calm_def stuck_def simulate_no_targets)

lemma frame_calm_sim:
  assumes "calm g"
  shows "\<exists>g1. (if in_start_menu g then Inr g else if is_game_over g then Inr g else simulate g) = Inr g1 \<and>
      player g1 = player g \<and> calm g1"
proof (cases "in_start_menu g \<or> is_game_over g")
  case True
  with assms show ?thesis by auto
next
  case False
  let ?g1 = "g\<lparr>player_bullets := filter (\<lambda>b. \<not> pbullet_gone b) (map move_pbullet (player_bullets g))\<rparr>"
  have s: "simulate g = Inr ?g1" using simulate_calm [OF assms] False by simp
  have "calm ?g1"
    using assms simulate_inv [OF _ s] simulate_shape [OF _ s] by (simp add: calm_def stuck_def)
  with False s show ?thesis by simp
qed

lemma frame_calm:
  assumes "calm g" and "frame evs keys g = Inl err"
  shows "err = TypeError"
proof -
  obtain g1 where s: "(if in_start_menu g then Inr g else if is_game_over g then Inr g else simulate g) = Inr g1"
    and c: "calm g1"
    using frame_calm_sim [OF assms(1)] by blast
  with assms(2) show ?thesis
    by (cases "handle_events evs g1") (auto simp add: frame_def handle_events_calm dest: move_player_err)
qed

lemma frame_calm_ok:
  assumes "calm g" and "rx (player g) + 23 \<le> INT_MAX"
  shows "\<exists>g'. frame evs [] g = Inr g' \<and> rx (player g') + 23 \<le> INT_MAX"
proof -
  obtain g1 where s: "(if in_start_menu g then Inr g else if is_game_over g then Inr g else simulate g) = Inr g1"
    and p: "player g1 = player g" and c: "calm g1"
    using frame_calm_sim [OF assms(1)] by blast
  from handle_events_calm_ok [OF c] assms(2) p obtain g2 where
    "handle_events evs g1 = Inr g2" "rx (player g2) + 23 \<le> INT_MAX" by auto
  with s show ?thesis by (simp add: frame_def)
qed

section \<open>Loops that never return\<close>

text \<open>
  Partial correctness of \<open>main_loop\<close> by its fixpoint induction: if every frame
  from a state of a family either raises an error of a class or continues in the
  family, then the loop returns, if at all, only with such an error.
\<close>

lemma main_loop_errors_only:
  assumes err: "\<And>n g e. Q n g \<Longrightarrow> running g \<Longrightarrow> frame (fst (inp n)) (snd (inp n)) g = Inl e \<Longrightarrow> E e"
    and step: "\<And>n g g1. Q n g \<Longrightarrow> running g \<Longrightarrow> frame (fst (inp n)) (snd (inp n)) g = Inr g1 \<Longrightarrow>
        Q (Suc n) g1 \<and> running g1"
    and q: "Q n g" and r: "running g" and ret: "main_loop inp n g = Some res"
  shows "\<exists>e. res = Inl e \<and> E e"
proof -
  have "inp' = inp \<longrightarrow> Q n' g' \<longrightarrow> running g' \<longrightarrow> (\<exists>e. res' = Inl e \<and> E e)"
    if "main_loop inp' n' g' = Some res'" for inp' n' g' res'
  proof (rule main_loop.raw_induct [where P = "\<lambda>inp' n' g' res'.
      inp' = inp \<longrightarrow> Q n' g' \<longrightarrow> running g' \<longrightarrow> (\<exists>e. res' = Inl e \<and> E e)", OF _ that])
    fix f inp' n' g' res'
    assume IH: "\<And>inp' n' g' res'. f inp' n' g' = Some res' \<Longrightarrow>
        inp' = inp \<longrightarrow> Q n' g' \<longrightarrow> running g' \<longrightarrow> (\<exists>e. res' = Inl e \<and> E e)"
      and eq: "(if running g' then (case frame (fst (inp' n')) (snd (inp' n')) g' of
           Inl e \<Rightarrow> Some (Inl e) | Inr g1 \<Rightarrow> f inp' (Suc n') g1) else Some (Inr g')) = Some res'"
    show "inp' = inp \<longrightarrow> Q n' g' \<longrightarrow> running g' \<longrightarrow> (\<exists>e. res' = Inl e \<and> E e)"
    proof (intro impI)
      assume i: "inp' = inp" and qn: "Q n' g'" and rn: "running g'"
      show "\<exists>e. res' = Inl e \<and> E e"
      proof (cases "frame (fst (inp n')) (snd (inp n')) g'")
        case (Inl e)
        with eq i rn err [OF qn rn Inl] show ?thesis by auto
      next
        case (Inr g1)
        with eq i rn have "f inp (Suc n') g1 = Some res'" by simp
        with IH step [OF qn rn Inr] show ?thesis by blast
      qed
    qed
  qed
  with q r ret show ?thesis by blast
qed

section \<open>Properties of the main loop\<close>

text \<open>
  C24. The main loop ends at the latest in the first iteration whose event queue
  holds a \<^verbatim>\<open>QUIT\<close>, whatever the state and the other inputs. Its result is
  the run of the finite prefix of the inputs up to that iteration: an exception
  or a final state with \<^verbatim>\<open>running\<close> false.
\<close>

theorem main_loop_quit_terminates:
  "QUIT \<in> set (fst (inp k)) \<Longrightarrow> main_loop inp 0 g = Some (run (map inp [0..<Suc k]) g)"
proof -
  assume "QUIT \<in> set (fst (inp k))"
  then have "stopped (run (map inp [0..<0 + Suc k]) g)"
    using run_quit_stopped [of inp 0 k g] by simp
  from main_loop_stopped [OF this] show ?thesis by simp
qed

theorem main_loop_quit_terminates_witness:
  "QUIT \<in> set (fst ((\<lambda>n. if n = 2 then ([QUIT], []) else ([KEYDOWN K_SPACE], [K_LEFT])) (2::nat))) \<and>
   main_loop (\<lambda>n. if n = 2 then ([QUIT], []) else ([KEYDOWN K_SPACE], [K_LEFT])) 0 init_game =
     Some (Inr ((restart_game init_game)\<lparr>player := Rect 673 708 50 50,
       player_bullets := [(Rect 701 698 5 5, 0, -10)], played := [Bullet_sound], running := False\<rparr>))"
proof -
  let ?inp = "\<lambda>n::nat. if n = 2 then ([QUIT], []) else ([KEYDOWN K_SPACE], [K_LEFT])"
  have q: "QUIT \<in> set (fst (?inp 2))" by simp
  have "run (map ?inp [0..<Suc 2]) init_game =
      Inr ((restart_game init_game)\<lparr>player := Rect 673 708 50 50,
       player_bullets := [(Rect 701 698 5 5, 0, -10)], played := [Bullet_sound], running := False\<rparr>)"
    by (simp add: numeral_eq_Suc frame_def move_player_def set_rx_eq new_rect_eq in_c_int_iff restart_game_def
        init_game_def simulate_no_targets fire_bullet_def loaded_sounds_def move_pbullet_def pbullet_gone_def player_speed_def game_constants Rect_def)
  with main_loop_quit_terminates [of ?inp 2 init_game] q show ?thesis by simp
qed

text \<open>
  C25. Once the game is softlocked, the program never ends normally: from a
  reachable softlocked state that is running, for any inputs without a
  \<^verbatim>\<open>QUIT\<close>, the main loop either never returns or ends with the
  \<open>TypeError\<close> of a player coordinate leaving the C \<open>int\<close> range. No game over
  and no other exception can happen. If no arrow key is ever held and the player
  has room to fire, it never returns at all.
\<close>

theorem softlock_runs_forever:
  "reachable g \<Longrightarrow> stuck g \<Longrightarrow> running g \<Longrightarrow> (\<forall>k. QUIT \<notin> set (fst (inp k))) \<Longrightarrow>
     (main_loop inp n g = None \<or> main_loop inp n g = Some (Inl TypeError)) \<and>
     ((\<forall>k. snd (inp k) = []) \<and> rx (player g) + 23 \<le> INT_MAX \<longrightarrow> main_loop inp n g = None)"
proof -
  assume r: "reachable g" and s: "stuck g" and run: "running g" and nq: "\<forall>k. QUIT \<notin> set (fst (inp k))"
  have c: "calm g" using r s by (rule calm_reachable)
  have calm_step: "calm g1 \<and> running g1"
    if "calm g" "running g" "frame evs keys g = Inr g1" "QUIT \<notin> set evs" for g g1 evs keys
    using that frame_stuck frame_inv frame_shape frame_running by (simp add: calm_def) blast
  have part1: "main_loop inp n g = None \<or> main_loop inp n g = Some (Inl TypeError)"
  proof (cases "main_loop inp n g")
    case (Some res)
    have "\<exists>e. res = Inl e \<and> e = TypeError"
    proof (rule main_loop_errors_only [where Q = "\<lambda>n g. calm g" and E = "\<lambda>e. e = TypeError"])
      show "\<And>n g e. calm g \<Longrightarrow> running g \<Longrightarrow> frame (fst (inp n)) (snd (inp n)) g = Inl e \<Longrightarrow> e = TypeError"
        by (rule frame_calm)
      show "\<And>n g g1. calm g \<Longrightarrow> running g \<Longrightarrow> frame (fst (inp n)) (snd (inp n)) g = Inr g1 \<Longrightarrow>
          calm g1 \<and> running g1"
        using nq calm_step by blast
    qed (use c run Some in auto)
    with Some show ?thesis by auto
  qed simp
  have part2: "main_loop inp n g = None" if k: "\<forall>k. snd (inp k) = []" and x: "rx (player g) + 23 \<le> INT_MAX"
  proof (cases "main_loop inp n g")
    case (Some res)
    have "\<exists>e. res = Inl e \<and> False"
    proof (rule main_loop_errors_only [where Q = "\<lambda>n g. calm g \<and> rx (player g) + 23 \<le> INT_MAX"
          and E = "\<lambda>e. False"])
      fix n g0
      assume a: "calm g0 \<and> rx (player g0) + 23 \<le> INT_MAX"
      have kn: "snd (inp n) = []" using k by blast
      obtain g' where f': "frame (fst (inp n)) (snd (inp n)) g0 = Inr g'" and x': "rx (player g') + 23 \<le> INT_MAX"
        using frame_calm_ok [of g0 "fst (inp n)"] a kn by auto
      { fix e
        assume "frame (fst (inp n)) (snd (inp n)) g0 = Inl e"
        with f' show False by simp }
      { fix g1
        assume r0: "running g0" and f: "frame (fst (inp n)) (snd (inp n)) g0 = Inr g1"
        with f' x' have "rx (player g1) + 23 \<le> INT_MAX" by simp
        moreover have "calm g1 \<and> running g1" using calm_step [OF _ r0 f] a nq by blast
        ultimately show "(calm g1 \<and> rx (player g1) + 23 \<le> INT_MAX) \<and> running g1" by simp }
    qed (use c x run Some in auto)
    then show ?thesis by blast
  qed simp
  from part1 part2 show ?thesis by blast
qed

theorem softlock_runs_forever_witness:
  "reachable softlock_state \<and> stuck softlock_state \<and> running softlock_state \<and>
   (\<forall>k. QUIT \<notin> set (fst ((\<lambda>_::nat. ([KEYDOWN K_SPACE, ENEMY_EVENT 3], [] :: key list)) k))) \<and>
   (\<forall>k. snd ((\<lambda>_::nat. ([KEYDOWN K_SPACE, ENEMY_EVENT 3], [] :: key list)) k) = []) \<and>
   rx (player softlock_state) + 23 \<le> INT_MAX \<and>
   main_loop (\<lambda>_. ([KEYDOWN K_SPACE, ENEMY_EVENT 3], [])) 0 softlock_state = None"
proof -
  let ?inp = "\<lambda>_::nat. ([KEYDOWN K_SPACE, ENEMY_EVENT 3], [] :: key list)"
  have s: "stuck softlock_state" and run: "running softlock_state"
    and x: "rx (player softlock_state) + 23 \<le> INT_MAX"
    by (simp_all add: stuck_def softlock_state_def init_game_def game_constants INT_MAX_def)
  have nq: "\<forall>k. QUIT \<notin> set (fst (?inp k))" and k: "\<forall>k. snd (?inp k) = []" by simp_all
  from softlock_runs_forever [OF reachable_softlock_state s run nq, of 0] k x reachable_softlock_state s run nq
  show ?thesis by simp
qed

text \<open>
  C26. What the player of a softlocked game sees: every screen shown for any
  inputs holds no enemy, no enemy bullet, no boss and no health bar. The field is
  empty for good.
\<close>

theorem softlock_screens_empty:
  "stuck g \<Longrightarrow> run_display fs g = Inr (scr, g') \<Longrightarrow> list_all (\<lambda>s. \<not> list_ex shows_threat s) scr"
proof (induction fs g arbitrary: scr rule: run_display.induct)
  case (1 g)
  then show ?case by simp
next
  case (2 evs keys fs g)
  show ?case
  proof (cases "running g")
    case True
    with "2.prems"(2) obtain g1 scr' where f: "frame evs keys g = Inr g1"
      and r: "run_display fs g1 = Inr (scr', g')" and scr: "scr = render g # scr'"
      by (auto simp add: py_simps split: prod.splits)
    have "\<not> list_ex shows_threat (render g)"
      using "2.prems"(1) by (auto simp add: stuck_def render_def draw_player_def draw_bullets_def
          draw_enemies_def draw_boss_def draw_score_def start_menu_def game_over_screen_def shows_threat_def
          game_colors list_ex_iff)
    moreover have "list_all (\<lambda>s. \<not> list_ex shows_threat s) scr'"
      using "2.IH" [OF True frame_stuck [OF "2.prems"(1) f] r] .
    ultimately show ?thesis by (simp add: scr)
  next
    case False
    with "2.prems"(2) show ?thesis by simp
  qed
qed

theorem softlock_screens_empty_witness:
  "stuck softlock_state \<and>
   run_display [([KEYDOWN K_SPACE], []), ([ENEMY_EVENT 9], [])] softlock_state =
     Inr ([render softlock_state, render (softlock_state\<lparr>player_bullets := [(Rect 706 708 5 5, 0, -10)],
             played := played softlock_state @ [Bullet_sound]\<rparr>)],
          softlock_state\<lparr>player_bullets := [(Rect 706 698 5 5, 0, -10)],
             played := played softlock_state @ [Bullet_sound]\<rparr>) \<and>
   list_all (\<lambda>s. \<not> list_ex shows_threat s)
     [render softlock_state, render (softlock_state\<lparr>player_bullets := [(Rect 706 708 5 5, 0, -10)],
             played := played softlock_state @ [Bullet_sound]\<rparr>)]"
proof -
  have s: "stuck softlock_state" by (simp add: stuck_def softlock_state_def init_game_def)
  have r: "run_display [([KEYDOWN K_SPACE], []), ([ENEMY_EVENT 9], [])] softlock_state =
     Inr ([render softlock_state, render (softlock_state\<lparr>player_bullets := [(Rect 706 708 5 5, 0, -10)],
             played := played softlock_state @ [Bullet_sound]\<rparr>)],
          softlock_state\<lparr>player_bullets := [(Rect 706 698 5 5, 0, -10)],
             played := played softlock_state @ [Bullet_sound]\<rparr>)"
    by (simp add: softlock_state_def init_game_def frame_def move_player_def simulate_no_targets fire_bullet_def
        new_rect_eq in_c_int_iff enemy_timer_def loaded_sounds_def move_pbullet_def pbullet_gone_def game_constants Rect_def)
  from softlock_screens_empty [OF s r] s r show ?thesis by simp
qed

end
