(* ===== verification/Spec2Isabelle.thy ===== *)
theory Spec2Isabelle
  imports Main_Loop
begin

text \<open>
  \<^bold>\<open>A verified model of \<^verbatim>\<open>src/game.py\<close>.\<close>
  The program is a single-file pygame shooter of 253 lines. A \<^verbatim>\<open>while running\<close>
  loop (lines 200--251) dispatches on two flags, \<^verbatim>\<open>in_start_menu\<close> and
  \<^verbatim>\<open>is_game_over\<close>. In play it moves everything (\<^verbatim>\<open>move_bullets\<close>,
  \<^verbatim>\<open>move_enemies\<close>, \<^verbatim>\<open>move_boss\<close>), resolves contacts
  (\<^verbatim>\<open>check_collisions\<close>), handles the queued events (quit, SPACE, R, the
  periodic \<^verbatim>\<open>enemy_event\<close> that runs \<^verbatim>\<open>spawn_enemy\<close>,
  \<^verbatim>\<open>enemy_fire\<close> and \<^verbatim>\<open>spawn_boss\<close>) and then the held arrow keys.
  All state is module globals.

  \<^bold>\<open>Theories.\<close> Each theory models one part, in the order the code has them.
  \<^item> \<open>Prelude\<close>: Python exceptions as values (\<open>py_error\<close>, results
    \<open>py_error + 'a\<close>, sequencing \<open>bindE\<close>: an uncaught exception ends the
    program), \<^verbatim>\<open>list.remove\<close> as \<open>py_remove\<close>, and shared list lemmas.
  \<^item> \<open>Rect\<close>: the constants (lines 10--15) and \<^verbatim>\<open>pygame.Rect\<close> with
    \<^verbatim>\<open>colliderect\<close>, modelled from pygame 2's contract (empty rectangles
    never collide; open overlap of both extents). A \<^verbatim>\<open>Rect\<close> stores C
    \<open>int\<close>s: \<open>new_rect\<close> (the constructor) and \<open>set_rx\<close> (assignment to
    \<^verbatim>\<open>.x\<close>) raise \<open>TypeError\<close> for a value outside
    [-2^31, 2^31 - 1].
  \<^item> \<open>Game_State\<close>: the record \<open>game\<close>, with one field per global the loop
    mutates (lines 31--57), plus \<open>sound_names\<close> and \<open>played\<close>. The field
    \<open>sound_names\<close> holds the sound globals bound at lines 66--69. The trace
    \<open>played\<close> lists the cues sent to the mixer. \<open>play\<close> raises
    \<open>NameError\<close> for an unbound sound; it is applied at each
    \<^verbatim>\<open>.play()\<close> call (lines 134, 139, 148, 154, 158, 174, 231). Also
    \<open>init_game\<close>, the derived \<open>mode\<close>, and \<open>reset_boss\<close> (lines 117--121).
  \<^item> \<open>Motion\<close>: \<open>move_bullets\<close>, \<open>move_enemies\<close> and \<open>move_boss\<close>
    (lines 92--115). Each loop iterates over a copy, mutates the object in place,
    then removes it by value. This is modelled literally: \<open>move_loop\<close> works
    on an explicit heap of objects named by their index in the copy, so the
    aliasing of the copy and the list is part of the model.
  \<^item> \<open>Collision\<close>: \<open>check_collisions\<close> (lines 123--158) as the composition
    of \<open>bullets_loop\<close> (with \<open>hit_enemies\<close> and \<open>hit_boss\<close> per bullet)
    and the three player passes \<open>player_struck\<close>/\<open>boss_struck\<close>.
  \<^item> \<open>Spawner\<close>: \<open>spawn_enemy\<close>, \<open>enemy_fire\<close>, \<open>spawn_boss\<close> (lines
    160--174) and the \<^verbatim>\<open>enemy_event\<close> branch \<open>enemy_timer\<close> (lines
    235--240). \<^verbatim>\<open>random.randint\<close> is an environment draw \<open>r\<close>, mapped
    onto the range by \<open>randint\<close>.
  \<^item> \<open>Game_Loop\<close>: \<open>restart_game\<close> (lines 188--197), \<open>handle_event\<close>
    (lines 220--240), \<open>move_player\<close> (lines 242--247), the play-mode step
    \<open>simulate\<close> (lines 215--218), one iteration \<open>frame\<close>, a run \<open>run\<close>
    over a list of frames, and the inductive set \<open>reachable\<close> of loop-top
    states. The specification's mode machine (its section 4.4) is the labelled
    transition function \<open>spec_mode\<close> on the triggers \<open>Confirm\<close>,
    \<open>Struck\<close> and \<open>Restart\<close>; \<open>event_triggers\<close> gives the triggers an
    event carries.
  \<^item> \<open>Reachability\<close>: the timing of the loop (\<open>timed\<close>), and two
    concrete runs from start-up that respect it: to the boss stage
    (\<open>boss_state\<close>, 2550 frames, computed period by period in closed form),
    and on to the softlock (\<open>softlock_state\<close>).
  \<^item> \<open>Invariant\<close>: two invariants of the reachable states, each preserved
    by every operation of a frame. \<open>game_inv\<close> covers the globals: the sounds,
    the boss health, the boss stage and the score. \<open>shape_inv\<close> covers the
    size of every rectangle, that every coordinate the code assigns is a C
    \<open>int\<close>, and where enemies, the boss and the player can be.
  \<^item> \<open>Render\<close>: the colours (lines 17--22) and the drawing code (lines
    72--90 and 176--186), returning the list of drawing commands a frame issues.
    \<open>render\<close> is the dispatch of lines 202--213. Python's \<^verbatim>\<open>str\<close> of
    the score is \<open>py_str_int\<close>.
  \<^item> \<open>Main_Loop\<close>: the whole \<^verbatim>\<open>while running\<close> loop over an unbounded
    input stream, as the partial function \<open>main_loop\<close>. \<open>None\<close> is a loop
    that never ends. \<open>run_display\<close> is a run that also records the screens
    it shows.
  \<^item> this theory: the claims that span several parts.

  \<^bold>\<open>What is proved.\<close>
  \<^item> The motion loops equal a plain filter after a map, and never raise (C1, C2).
  \<^item> Collisions:
    \<^item> the score accounting of a collision pass (C3);
    \<^item> the \<open>NameError\<close> on every boss hit (C4);
    \<^item> the \<open>ValueError\<close> of a bullet touching two enemies (C5);
    \<^item> the exact game-over condition (C6).
  \<^item> The spawner's three behaviours (C7--C9).
  \<^item> The game loop:
    \<^item> every frame refines the specification's labelled mode machine: the new
      mode is the machine run on the triggers of the frame's events, after one
      \<open>Struck\<close> step if the collision pass hit the player (C10);
    \<^item> a game over is stable (C11);
    \<^item> firing, and the \<open>TypeError\<close> of a bullet built at a coordinate
      outside the C \<open>int\<close> range (C12);
    \<^item> the restart softlock (C13);
    \<^item> score monotonicity within a session (C14);
    \<^item> the unclamped player movement, exact up to the frame where
      \<^verbatim>\<open>player.x\<close> leaves the C \<open>int\<close> range and raises (C15).
  \<^item> Over all reachable states (rule induction on \<open>reachable\<close> through
    \<open>game_inv\<close>):
    \<^item> the boss keeps full health (C16);
    \<^item> the score is a non-negative multiple of 10 (C17);
    \<^item> a live boss blocks the spawner (C19).
  \<^item> Reachability by runs the real program can take: the boss stage (C18) and
    the softlock (C27) are reached from start-up along traces that satisfy
    \<open>timed\<close>; every run from the softlock stays in it (C20).
  \<^item> Over all reachable states, through \<open>shape_inv\<close>:
    \<^item> every rectangle has the size of its kind, so \<^verbatim>\<open>if boss:\<close> is
      \<open>boss \<noteq> None\<close> (C21);
    \<^item> enemies, the boss and the player stay within their bounds (C22);
    \<^item> the boss's health bar is always drawn at full width (C23).
  \<^item> The main loop:
    \<^item> it ends in the first iteration that holds a \<^verbatim>\<open>QUIT\<close>, with the
      result of the finite run up to there (C24);
    \<^item> from the softlock, with no \<^verbatim>\<open>QUIT\<close>, it either never ends or
      stops with the \<open>TypeError\<close> of a held arrow key driving
      \<^verbatim>\<open>player.x\<close> out of the C \<open>int\<close> range; with no arrow key held it
      never ends (C25).
  \<^item> In the softlock, no screen ever shows an enemy, an enemy bullet or the
    boss (C26).

  \<^bold>\<open>Findings.\<close>
  \<^item> \<^verbatim>\<open>boss_hit_sound\<close> is never bound, so the first hit on the boss ends the
    program with \<open>NameError\<close>. The boss cannot be damaged and the 100-point
    bonus is dead code (C4, C16).
  \<^item> \<^verbatim>\<open>restart_game\<close> leaves \<^verbatim>\<open>boss_stage\<close> set. A restart after a
    game lost in the boss stage gives a game in which nothing ever spawns, and
    this state is reached by a timed run from start-up (C13, C20, C27). After it
    the program only ends on \<^verbatim>\<open>QUIT\<close> or the overflow of a held arrow key,
    showing an empty field (C25, C26).
  \<^item> A bullet that touches two enemies at once raises \<open>ValueError\<close>, because the
    inner loop removes it twice (C5).
  \<^item> Nothing keeps the player on the screen; after 429496867 frames of a held
    left arrow the assignment to \<^verbatim>\<open>player.x\<close> raises (C15).

  \<^bold>\<open>Modelling choices.\<close>
  \<^item> Integers are \<open>int\<close>, as in Python. Where the code stores one in a
    \<^verbatim>\<open>pygame.Rect\<close> (the player's moves, a new bullet) the model checks
    the C \<open>int\<close> range and raises \<open>TypeError\<close> outside it. This is the
    behaviour of pygame on Windows, the platform the code targets (the sound
    path of line 63), where the conversion goes through a 32-bit C
    \<open>long\<close>; on a 64-bit Linux build the value would be truncated instead. The
    other coordinates the code assigns stay inside the range in every reachable
    state (\<open>shape_inv\<close>).
  \<^item> Lists are HOL lists, and Python's by-value \<^verbatim>\<open>remove\<close> is
    \<open>remove1\<close>.
  \<^item> Every loop inside a frame is over a finite list, so each is structural
    recursion.
  \<^item> The main loop appears twice:
    \<^item> \<open>run\<close>, structural recursion over a finite list of frames;
    \<^item> \<open>main_loop\<close>, \<^theory_text>\<open>partial_function (option)\<close> over an input
      stream.
  \<^item> The two agree whenever the run has stopped. No fuel is needed anywhere.
  \<^item> \<^verbatim>\<open>if boss:\<close> is modelled as \<open>boss \<noteq> None\<close>. pygame's truth value
    of a rectangle is \<open>rect_bool\<close>, and C21 shows that the two agree on every
    reachable state.
  \<^item> The width of the health bar is a Python float. It is kept as an exact
    rational, which is exact for the only value it takes (C23).
  \<^item> A screen is the list of drawing commands of one frame, in the order the
    code issues them. Fonts, pixels and the flip itself are not modelled.
  \<^item> An event queue and a set of held keys per frame stand for
    \<^verbatim>\<open>pygame.event.get()\<close> and \<^verbatim>\<open>pygame.key.get_pressed()\<close>.
  \<^item> The 1000 ms timer is an \<open>ENEMY_EVENT r\<close> in the queue, carrying the
    random draw. \<open>frame\<close>, \<open>run\<close> and \<open>reachable\<close> take the timer
    events as free input, so \<open>reachable\<close> over-approximates the states of the
    real program: every invariant proved over it holds for the program. A
    concrete run is shown to be one the program can take by pairing it with
    the durations of its frames: \<open>timed\<close> asks that each frame last at least
    the 16 ms that \<^verbatim>\<open>clock.tick(FPS)\<close> waits for (line 250) and hold exactly
    one timer event per second boundary passed since \<^verbatim>\<open>set_timer\<close>
    (line 43). The runs of C18 and C27 are timed at 20 ms a frame. Key presses
    and held keys are free: a player can make them at any frame.

  \<^bold>\<open>Not modelled.\<close>
  \<^item> How pygame turns drawing commands into pixels, and the font.
  \<^item> The waiting itself of \<^verbatim>\<open>clock.tick(FPS)\<close> and the SDL timer thread;
    only the timing contract \<open>timed\<close> that they give is modelled.
  \<^item> pygame and mixer initialisation, the window caption, and reading the sound
    files (lines 1--8, 24--29, 59--69). Only the set of names they bind is
    modelled.
  \<^item> \<^verbatim>\<open>pygame.quit()\<close> and \<^verbatim>\<open>sys.exit()\<close> after the loop (lines
    252--253). The model stops where the loop returns.
\<close>

section \<open>Properties of the whole game\<close>

text \<open>
  C16. The boss never loses health in any run: every completed frame leaves
  \<^verbatim>\<open>boss_health\<close> at 20, because the only statement that decrements it is
  followed by the unbound \<^verbatim>\<open>boss_hit_sound\<close> and so never completes.
\<close>

theorem reachable_boss_full_health: "reachable g \<Longrightarrow> boss_health g = 20"
  by (drule reachable_game_inv) (simp add: game_inv_def)

theorem reachable_boss_full_health_witness:
  "reachable boss_state \<and> boss_health boss_state = 20"
  using reachable_boss_full_health [OF reachable_boss_state] reachable_boss_state by simp

text \<open>
  C17. In every reachable state the score is a non-negative multiple of 10: it
  starts at 0, is reset to 0, and only ever grows by the 10 points of an enemy
  kill (the 100-point bonus is never paid, and would keep the property).
\<close>

theorem reachable_score: "reachable g \<Longrightarrow> 0 \<le> score g \<and> 10 dvd score g"
  by (drule reachable_game_inv) (simp add: game_inv_def)

theorem reachable_score_witness:
  "reachable boss_state \<and> 0 \<le> score boss_state \<and> 10 dvd score boss_state"
  using reachable_score [OF reachable_boss_state] reachable_boss_state by simp

text \<open>
  C18. The boss stage is reachable by a run the real program can take: with every
  frame lasting 20 ms, the 2550 frames of \<open>boss_inputs\<close> hold exactly the
  timer events that \<^verbatim>\<open>set_timer\<close> and \<^verbatim>\<open>clock.tick(FPS)\<close> deliver,
  and they take the program from its start-up state to a state with the boss on
  the field, the boss stage set and 500 points, with no exception raised on the
  way.
\<close>

theorem boss_stage_reachable:
  "timed 0 (replicate 2550 20) boss_inputs \<and> run boss_inputs init_game = Inr boss_state \<and>
   reachable boss_state \<and> boss boss_state \<noteq> None \<and> boss_stage boss_state \<and> score boss_state = 500"
  using timed_boss_inputs run_boss_inputs reachable_boss_state by (simp add: boss_state_def)

text \<open>
  C19. In every reachable state with the boss on the field a timer event changes
  nothing: the boss is fought alone, with no enemy spawned and no enemy bullet
  fired.
\<close>

theorem reachable_boss_alone:
  "reachable g \<Longrightarrow> boss g \<noteq> None \<Longrightarrow> handle_event (ENEMY_EVENT r) g = Inr g"
  by (drule reachable_game_inv) (auto simp add: game_inv_def enemy_timer_def)

theorem reachable_boss_alone_witness:
  "reachable boss_state \<and> boss boss_state \<noteq> None \<and> handle_event (ENEMY_EVENT 5) boss_state = Inr boss_state"
proof -
  have b: "boss boss_state \<noteq> None" by (simp add: boss_state_def init_game_def)
  from reachable_boss_alone [OF reachable_boss_state b, of 5] reachable_boss_state b show ?thesis by simp
qed

text \<open>
  C20. The softlock is reachable: after the boss has appeared, a game over in the
  boss stage followed by \<open>r\<close> and \<open>SPACE\<close> leads to \<open>softlock_state\<close>, and
  every state any later input leads to is reachable, still in the boss stage,
  with no boss, no enemy and no points, for ever.
\<close>

theorem softlock_reachable:
  "run fs softlock_state = Inr g' \<Longrightarrow>
     reachable g' \<and> boss_stage g' \<and> boss g' = None \<and> enemies g' = [] \<and> score g' = 0"
proof -
  assume r: "run fs softlock_state = Inr g'"
  have "stuck softlock_state" by (simp add: stuck_def softlock_state_def init_game_def)
  from run_stuck [OF this r] have "stuck g'" .
  moreover have "reachable g'" by (rule reachable_run [OF reachable_softlock_state r])
  ultimately show ?thesis by (simp add: stuck_def)
qed

theorem softlock_reachable_witness:
  "run [([ENEMY_EVENT 7], []), ([], [K_LEFT, K_RIGHT])] softlock_state = Inr softlock_state \<and>
   reachable softlock_state \<and> boss_stage softlock_state \<and> boss softlock_state = None \<and>
   enemies softlock_state = [] \<and> score softlock_state = 0"
proof -
  have r: "run [([ENEMY_EVENT 7], []), ([], [K_LEFT, K_RIGHT])] softlock_state = Inr softlock_state"
    by (simp add: softlock_state_def init_game_def frame_def simulate_no_targets enemy_timer_def
        move_player_def set_rx_eq in_c_int_iff player_speed_def game_constants Rect_def)
  from softlock_reachable [OF r] r show ?thesis by simp
qed

text \<open>
  C27. The softlock is reached from start-up by a run the real program can take:
  the 2550 frames to the boss stage followed by the 37 frames of
  \<open>softlock_inputs\<close> (a hit by an enemy bullet while the boss is on the field,
  then \<open>r\<close> and \<open>SPACE\<close>), all lasting 20 ms, hold exactly the timer events
  the timer delivers and end in a softlocked state: the boss stage set, no boss,
  no enemy, no enemy bullet and no points.
\<close>

theorem softlock_timed_reachable:
  "timed 0 (replicate 2587 20) (boss_inputs @ softlock_inputs) \<and>
   run (boss_inputs @ softlock_inputs) init_game = Inr softlock_state \<and> stuck softlock_state"
proof -
  have l: "length boss_inputs = 2550"
    by (simp add: boss_inputs_def opening_inputs_def period_inputs_def length_concat sum_list_replicate)
  have d: "replicate 2587 (20::nat) = replicate 2550 20 @ replicate 37 20"
    unfolding replicate_add [symmetric] by simp
  have "timed 0 (replicate 2587 20) (boss_inputs @ softlock_inputs)"
    using timed_boss_inputs timed_softlock_inputs by (simp add: d l timed_append sum_list_replicate)
  moreover have "run (boss_inputs @ softlock_inputs) init_game = Inr softlock_state"
    by (simp add: run_append run_boss_inputs run_softlock_inputs)
  moreover have "stuck softlock_state"
    by (simp add: stuck_def softlock_state_def init_game_def)
  ultimately show ?thesis by blast
qed

text \<open>
  C21. In every reachable state each rectangle has the size of its kind: the
  player 50 by 50, every bullet 5 by 5 (a player bullet moving by (0, -10)),
  every enemy 30 by 30 and the boss 100 by 100. So pygame's truth test
  \<^verbatim>\<open>if boss:\<close> is exactly \<open>boss \<noteq> None\<close>, which is how the model reads it.
\<close>

theorem reachable_rect_shapes:
  "reachable g \<Longrightarrow>
     rw (player g) = PLAYER_SIZE \<and> rh (player g) = PLAYER_SIZE \<and>
     list_all (\<lambda>(r, dx, dy). rw r = BULLET_SIZE \<and> rh r = BULLET_SIZE \<and> dx = 0 \<and> dy = -10) (player_bullets g) \<and>
     list_all (\<lambda>r. rw r = BULLET_SIZE \<and> rh r = BULLET_SIZE) (enemy_bullets g) \<and>
     list_all (\<lambda>r. rw r = ENEMY_SIZE \<and> rh r = ENEMY_SIZE) (enemies g) \<and>
     pred_option (\<lambda>r. rw r = BOSS_SIZE \<and> rh r = BOSS_SIZE) (boss g) \<and>
     (rect_bool (boss g) \<longleftrightarrow> boss g \<noteq> None)"
proof -
  assume "reachable g"
  then have s: "shape_inv g" by (rule reachable_shape_inv)
  then have "rect_bool (boss g) \<longleftrightarrow> boss g \<noteq> None"
    by (cases "boss g") (simp_all add: rect_bool_def shape_inv_def boss_ok_def game_constants)
  with s show ?thesis
    by (auto simp add: shape_inv_def pbullet_ok_def ebullet_ok_def enemy_ok_def boss_ok_def list_all_iff
        elim: option.pred_mono_strong)
qed

theorem reachable_rect_shapes_witness:
  "reachable boss_state \<and> rw (player boss_state) = PLAYER_SIZE \<and> rh (player boss_state) = PLAYER_SIZE \<and>
     list_all (\<lambda>(r, dx, dy). rw r = BULLET_SIZE \<and> rh r = BULLET_SIZE \<and> dx = 0 \<and> dy = -10) (player_bullets boss_state) \<and>
     list_all (\<lambda>r. rw r = BULLET_SIZE \<and> rh r = BULLET_SIZE) (enemy_bullets boss_state) \<and>
     list_all (\<lambda>r. rw r = ENEMY_SIZE \<and> rh r = ENEMY_SIZE) (enemies boss_state) \<and>
     pred_option (\<lambda>r. rw r = BOSS_SIZE \<and> rh r = BOSS_SIZE) (boss boss_state) \<and>
     (rect_bool (boss boss_state) \<longleftrightarrow> boss boss_state \<noteq> None)"
  using reachable_rect_shapes [OF reachable_boss_state] reachable_boss_state by simp

text \<open>
  C22. In every reachable state the player stands on its row, 10 pixels above
  the bottom edge; every enemy is inside the field's columns and between the top
  edge and the bottom edge; the boss is inside the columns and between 100 pixels
  above the top edge and the bottom edge.
\<close>

theorem reachable_field_bounds:
  "reachable g \<Longrightarrow>
     ry (player g) = HEIGHT - PLAYER_SIZE - 10 \<and>
     list_all (\<lambda>e. 0 \<le> rx e \<and> rx e \<le> WIDTH - ENEMY_SIZE \<and> 0 \<le> ry e \<and> ry e \<le> HEIGHT) (enemies g) \<and>
     pred_option (\<lambda>b. 0 \<le> rx b \<and> rx b \<le> WIDTH - BOSS_SIZE \<and> -100 \<le> ry b \<and> ry b \<le> HEIGHT) (boss g)"
proof -
  assume "reachable g"
  then have s: "shape_inv g" by (rule reachable_shape_inv)
  then show ?thesis
    by (auto simp add: shape_inv_def enemy_ok_def boss_ok_def list_all_iff elim: option.pred_mono_strong)
qed

theorem reachable_field_bounds_witness:
  "reachable boss_state \<and> ry (player boss_state) = HEIGHT - PLAYER_SIZE - 10 \<and>
     list_all (\<lambda>e. 0 \<le> rx e \<and> rx e \<le> WIDTH - ENEMY_SIZE \<and> 0 \<le> ry e \<and> ry e \<le> HEIGHT) (enemies boss_state) \<and>
     pred_option (\<lambda>b. 0 \<le> rx b \<and> rx b \<le> WIDTH - BOSS_SIZE \<and> -100 \<le> ry b \<and> ry b \<le> HEIGHT) (boss boss_state)"
  using reachable_field_bounds [OF reachable_boss_state] reachable_boss_state by simp

text \<open>
  C23. In every reachable play state with the boss on the field, the health bar
  drawn above the boss is always its full width of 100 pixels: the bar never
  shrinks, since no hit on the boss ever completes.
\<close>

theorem reachable_health_bar_full:
  "reachable g \<Longrightarrow> mode g = Playing \<Longrightarrow> boss g = Some bo \<Longrightarrow>
     Draw_bar RED (rx bo) (ry bo - 10) 100 5 \<in> set (render g)"
proof -
  assume r: "reachable g" and m: "mode g = Playing" and b: "boss g = Some bo"
  have "rw bo = 100"
    using reachable_shape_inv [OF r] b by (simp add: shape_inv_def boss_ok_def game_constants)
  moreover have "boss_health g = 20"
    using reachable_game_inv [OF r] by (simp add: game_inv_def)
  ultimately show ?thesis
    using m b by (simp add: render_def draw_boss_def mode_Playing)
qed

theorem reachable_health_bar_full_witness:
  "reachable boss_state \<and> mode boss_state = Playing \<and> boss boss_state = Some (Rect 0 (-100) 100 100) \<and>
     Draw_bar RED 0 (-110) 100 5 \<in> set (render boss_state)"
proof -
  have m: "mode boss_state = Playing" and b: "boss boss_state = Some (Rect 0 (-100) 100 100)"
    by (simp_all add: boss_state_def init_game_def mode_def)
  from reachable_health_bar_full [OF reachable_boss_state m b] reachable_boss_state m b show ?thesis
    by simp
qed

end
